theory Spec2Isabelle
  imports Main "HOL-Library.Word"
begin

unbundle bit_operations_syntax

section \<open>Time\<close>

text \<open>
  An instant of Go's \<open>time.Time\<close> is modelled by its position on the clock in
  nanoseconds (an unbounded integer); a \<open>time.Duration\<close> is a signed 64-bit count of
  nanoseconds. \<open>Time.Sub\<close> saturates at the two ends of the Duration range, as the
  standard library does; \<open>After\<close> and \<open>Before\<close> are strict comparisons.
\<close>

type_synonym Time = int
type_synonym Duration = int

definition Second :: Duration where
  "Second = 1000000000"

definition Minute :: Duration where
  "Minute = 60 * Second"

definition Hour :: Duration where
  "Hour = 60 * Minute"

definition maxDuration :: Duration where
  "maxDuration = 2 ^ 63 - 1"

definition minDuration :: Duration where
  "minDuration = - (2 ^ 63)"

definition Sub :: "Time \<Rightarrow> Time \<Rightarrow> Duration" where
  "Sub t u =
     (let d = t - u
      in if d < minDuration then minDuration
         else if maxDuration < d then maxDuration
         else d)"

definition Add :: "Time \<Rightarrow> Duration \<Rightarrow> Time" where
  "Add t d = t + d"

definition After :: "Time \<Rightarrow> Time \<Rightarrow> bool" where
  "After t u = (u < t)"

definition Before :: "Time \<Rightarrow> Time \<Rightarrow> bool" where
  "Before t u = (t < u)"

definition Unix :: "Time \<Rightarrow> int" where
  "Unix t = t div Second"

definition zeroTime :: Time where
  "zeroTime = - 62135596800 * Second"

section \<open>Data model (internal/model)\<close>

type_synonym byte = "8 word"
type_synonym UUID = "128 word"

record User =
  User_ID :: UUID
  User_PhoneNumber :: string
  User_CreatedAt :: Time
  User_UpdatedAt :: Time

record OTP =
  OTP_ID :: UUID
  OTP_PhoneNumber :: string
  OTP_OTPCode :: string
  OTP_CreatedAt :: Time
  OTP_ExpiresAt :: Time

text \<open>\<open>OTP.IsExpired\<close>: \<open>time.Now().After(o.ExpiresAt)\<close>; the reading of the clock is
  the first argument.\<close>

definition IsExpired :: "Time \<Rightarrow> OTP \<Rightarrow> bool" where
  "IsExpired now otp = After now (OTP_ExpiresAt otp)"

text \<open>The sentinel errors of the packages \<open>database\<close> and \<open>auth\<close>. An error wrapped
  with \<open>%w\<close> is modelled by the sentinel it wraps (what \<open>errors.Is\<close> sees);
  \<open>ErrProcessOTP\<close> is the \<open>fmt.Errorf("failed to process OTP request")\<close> of SendOTP and
  \<open>ErrLibrary\<close> an error reported by a library primitive.\<close>

datatype error =
    ErrNotFound
  | ErrAlreadyExists
  | ErrUserNotFound
  | ErrRateLimitExceeded
  | ErrInvalidOTP
  | ErrUserRegistration
  | ErrJWTGeneration
  | ErrProcessOTP
  | ErrLibrary string

section \<open>Code generator (pkg/otp/generator.go)\<close>

text \<open>\<open>fmt.Sprintf("%06d", n)\<close>: the decimal digits of \<open>n\<close>, padded on the left with
  zeros to width 6 (the sign, if any, comes first and counts in the width).\<close>

definition digit_char :: "nat \<Rightarrow> char" where
  "digit_char d = ''0123456789'' ! d"

fun dec_digits :: "nat \<Rightarrow> string" where
  "dec_digits n =
     (if n < 10 then [digit_char n]
      else dec_digits (n div 10) @ [digit_char (n mod 10)])"

declare dec_digits.simps [simp del]

definition Sprintf_06d :: "int \<Rightarrow> string" where
  "Sprintf_06d n =
     (if n < 0
      then (let ds = dec_digits (nat (- n))
            in CHR ''-'' # replicate (5 - length ds) CHR ''0'' @ ds)
      else (let ds = dec_digits (nat n)
            in replicate (6 - length ds) CHR ''0'' @ ds))"

text \<open>The number drawn from the three bytes:
  \<open>(int(b[0])<<16 | int(b[1])<<8 | int(b[2])) % 1000000\<close>.\<close>

definition otp_number :: "byte \<Rightarrow> byte \<Rightarrow> byte \<Rightarrow> int" where
  "otp_number b0 b1 b2 =
     (push_bit 16 (uint b0) OR push_bit 8 (uint b1) OR uint b2) mod 1000000"

text \<open>\<open>GenerateOTP\<close>. The argument is what \<open>io.ReadAtLeast(rand.Reader, b, 3)\<close> gave:
  \<open>None\<close> when the read failed, the three bytes otherwise.\<close>

definition GenerateOTP :: "(byte \<times> byte \<times> byte) option \<Rightarrow> string" where
  "GenerateOTP rnd =
     (case rnd of
        None \<Rightarrow> ''000000''
      | Some (b0, b1, b2) \<Rightarrow> Sprintf_06d (otp_number b0 b1 b2))"

section \<open>Rate limiters\<close>

text \<open>A Go map from keys to slices; reading a missing key gives the nil slice.\<close>

definition slice_at :: "(string \<rightharpoonup> Time list) \<Rightarrow> string \<Rightarrow> Time list" where
  "slice_at m k = (case m k of None \<Rightarrow> [] | Some ts \<Rightarrow> ts)"

subsection \<open>internal/middleware: the limiter that is wired in\<close>

record InMemoryRateLimiter =
  requests :: "string \<rightharpoonup> Time list"
  maxReq :: int
  timeWindow :: Duration

definition NewInMemoryRateLimiter :: "int \<Rightarrow> Duration \<Rightarrow> InMemoryRateLimiter" where
  "NewInMemoryRateLimiter n w = \<lparr>requests = Map.empty, maxReq = n, timeWindow = w\<rparr>"

definition Allow :: "Time \<Rightarrow> string \<Rightarrow> InMemoryRateLimiter \<Rightarrow> bool \<times> InMemoryRateLimiter" where
  "Allow currentTime key r =
     (let recentRequests =
            filter (\<lambda>t. Sub currentTime t \<le> timeWindow r) (slice_at (requests r) key)
      in if maxReq r \<le> int (length recentRequests)
         then (False, r\<lparr>requests := (requests r)(key \<mapsto> recentRequests)\<rparr>)
         else (True, r\<lparr>requests := (requests r)(key \<mapsto> recentRequests @ [currentTime])\<rparr>))"

subsection \<open>internal/database: the limiter with the constants 3 and 10 minutes\<close>

record DB_InMemoryRateLimiter =
  db_requests :: "string \<rightharpoonup> Time list"

definition DB_Allow :: "Time \<Rightarrow> string \<Rightarrow> DB_InMemoryRateLimiter \<Rightarrow> bool \<times> DB_InMemoryRateLimiter" where
  "DB_Allow currentTime phoneNumber r =
     (let recentRequests =
            filter (\<lambda>t. Sub currentTime t \<le> 10 * Minute) (slice_at (db_requests r) phoneNumber)
      in if 3 \<le> length recentRequests
         then (False, r)
         else (True, r\<lparr>db_requests := (db_requests r)(phoneNumber \<mapsto> recentRequests @ [currentTime])\<rparr>))"

section \<open>In-memory stores (internal/database)\<close>

record InMemoryUserStore =
  users :: "UUID \<rightharpoonup> User"
  phoneIndex :: "string \<rightharpoonup> UUID"

definition NewInMemoryUserStore :: InMemoryUserStore where
  "NewInMemoryUserStore = \<lparr>users = Map.empty, phoneIndex = Map.empty\<rparr>"

text \<open>\<open>CreateUser\<close>: the fresh id is \<open>uuid.New()\<close>, the two instants are the two readings
  of \<open>time.Now()\<close>.\<close>

definition InMemoryUserStore_CreateUser ::
  "UUID \<Rightarrow> Time \<Rightarrow> Time \<Rightarrow> User \<Rightarrow> InMemoryUserStore \<Rightarrow> (error + User) \<times> InMemoryUserStore" where
  "InMemoryUserStore_CreateUser newID now1 now2 user s =
     (if phoneIndex s (User_PhoneNumber user) \<noteq> None then (Inl ErrAlreadyExists, s)
      else let user' = user\<lparr>User_ID := newID, User_CreatedAt := now1, User_UpdatedAt := now2\<rparr>
           in (Inr user',
               s\<lparr>users := (users s)(User_ID user' \<mapsto> user'),
                 phoneIndex := (phoneIndex s)(User_PhoneNumber user' \<mapsto> User_ID user')\<rparr>))"

definition InMemoryUserStore_GetUserByPhoneNumber :: "string \<Rightarrow> InMemoryUserStore \<Rightarrow> error + User" where
  "InMemoryUserStore_GetUserByPhoneNumber phoneNumber s =
     (case phoneIndex s phoneNumber of
        None \<Rightarrow> Inl ErrNotFound
      | Some i \<Rightarrow> (case users s i of None \<Rightarrow> Inl ErrNotFound | Some user \<Rightarrow> Inr user))"

record InMemoryOTPStore =
  otps :: "string \<rightharpoonup> OTP"

definition NewInMemoryOTPStore :: InMemoryOTPStore where
  "NewInMemoryOTPStore = \<lparr>otps = Map.empty\<rparr>"

definition InMemoryOTPStore_StoreOTP ::
  "UUID \<Rightarrow> Time \<Rightarrow> OTP \<Rightarrow> InMemoryOTPStore \<Rightarrow> error option \<times> InMemoryOTPStore" where
  "InMemoryOTPStore_StoreOTP newID now otp s =
     (let otp' = otp\<lparr>OTP_ID := newID, OTP_CreatedAt := now\<rparr>
      in (None, s\<lparr>otps := (otps s)(OTP_PhoneNumber otp' \<mapsto> otp')\<rparr>))"

definition InMemoryOTPStore_GetOTP :: "string \<Rightarrow> InMemoryOTPStore \<Rightarrow> error + OTP" where
  "InMemoryOTPStore_GetOTP phoneNumber s =
     (case otps s phoneNumber of None \<Rightarrow> Inl ErrNotFound | Some otp \<Rightarrow> Inr otp)"

definition InMemoryOTPStore_DeleteOTP :: "string \<Rightarrow> InMemoryOTPStore \<Rightarrow> error option \<times> InMemoryOTPStore" where
  "InMemoryOTPStore_DeleteOTP phoneNumber s = (None, s\<lparr>otps := (otps s)(phoneNumber := None)\<rparr>)"

section \<open>Libraries the repository calls\<close>

text \<open>Modelled from the spec: the UUID library and the token library (golang-jwt), which
  the repository vendors, are not among its source files. Section 4.5 of the specification
  describes what they do for this program: Mint "encodes accountId, identity, issuedAt, and
  an expiry into a tamper-evident structure signed with a server-held secret using a standard
  MAC", and Verify "checks signature integrity, signing-algorithm match and expiry". A
  token is therefore the triple of its signing method, its claims and its signature (the
  base64/JSON wire form is not modelled); the MAC itself and the text form of a UUID are
  fields of the record \<open>Library\<close>, about which nothing is assumed here.\<close>

datatype SigningMethod =
    HS256 | HS384 | HS512
  | RS256 | RS384 | RS512
  | ES256 | ES384 | ES512
  | PS256 | PS384 | PS512
  | EdDSA
  | SigningMethodNone

datatype claim = ClaimString string | ClaimNumber int | ClaimOther

type_synonym MapClaims = "string \<rightharpoonup> claim"

record Token =
  Token_Method :: SigningMethod
  Token_Claims :: MapClaims
  Token_Signature :: string

record Library =
  uuid_String :: "UUID \<Rightarrow> string"
  uuid_Parse :: "string \<Rightarrow> UUID option"
  method_Sign :: "SigningMethod \<Rightarrow> string \<Rightarrow> SigningMethod \<times> MapClaims \<Rightarrow> error + string"

text \<open>Modelled from the spec: \<open>jwt.NewWithClaims\<close> and \<open>Token.SignedString\<close> (token
  library, not in the repository): the token is signed over its method and claims with
  the key, and the signing error, if any, is returned.\<close>

definition NewWithClaims :: "SigningMethod \<Rightarrow> MapClaims \<Rightarrow> Token" where
  "NewWithClaims m claims = \<lparr>Token_Method = m, Token_Claims = claims, Token_Signature = []\<rparr>"

definition SignedString :: "Library \<Rightarrow> Token \<Rightarrow> string \<Rightarrow> error + Token" where
  "SignedString L token key =
     (case method_Sign L (Token_Method token) key (Token_Method token, Token_Claims token) of
        Inl err \<Rightarrow> Inl err
      | Inr sig \<Rightarrow> Inr (token\<lparr>Token_Signature := sig\<rparr>))"

text \<open>Modelled from the spec: \<open>jwt.Parse\<close> (token library, not in the repository). The key
  function chooses the key or rejects the token; then the signature is recomputed with the
  token's method and compared; then the registered time claims are validated against the
  clock: a token is expired unless \<open>now\<close> is before \<open>exp\<close> (and it is not yet valid while
  \<open>now\<close> is before a not-before claim \<open>nbf\<close>, which the tokens minted here do not carry).
  Every failure is an error (the library "fails closed").\<close>

definition validate_claims :: "Time \<Rightarrow> MapClaims \<Rightarrow> error option" where
  "validate_claims now claims =
     (case claims ''exp'' of
        Some (ClaimNumber e) \<Rightarrow>
          if Before now (e * Second)
          then (case claims ''nbf'' of
                  Some (ClaimNumber n) \<Rightarrow>
                    if Before now (n * Second) then Some (ErrLibrary ''token is not valid yet'')
                    else None
                | Some _ \<Rightarrow> Some (ErrLibrary ''invalid type for claim'')
                | None \<Rightarrow> None)
          else Some (ErrLibrary ''token is expired'')
      | Some _ \<Rightarrow> Some (ErrLibrary ''invalid type for claim'')
      | None \<Rightarrow>
          (case claims ''nbf'' of
             Some (ClaimNumber n) \<Rightarrow>
               if Before now (n * Second) then Some (ErrLibrary ''token is not valid yet'')
               else None
           | Some _ \<Rightarrow> Some (ErrLibrary ''invalid type for claim'')
           | None \<Rightarrow> None))"

definition Parse :: "Library \<Rightarrow> Time \<Rightarrow> Token \<Rightarrow> (Token \<Rightarrow> error + string) \<Rightarrow> error + Token" where
  "Parse L now tokenString keyFunc =
     (case keyFunc tokenString of
        Inl err \<Rightarrow> Inl err
      | Inr key \<Rightarrow>
          if method_Sign L (Token_Method tokenString) key
               (Token_Method tokenString, Token_Claims tokenString)
             \<noteq> Inr (Token_Signature tokenString)
          then Inl (ErrLibrary ''signature is invalid'')
          else (case validate_claims now (Token_Claims tokenString) of
                  Some err \<Rightarrow> Inl err
                | None \<Rightarrow> Inr tokenString))"

section \<open>Token issuing and checking\<close>

text \<open>\<open>authService.generateJWT\<close>. The two instants are the two readings of \<open>time.Now()\<close>,
  for \<open>iat\<close> and for \<open>exp\<close>.\<close>

definition generateJWT :: "Library \<Rightarrow> string \<Rightarrow> Time \<Rightarrow> Time \<Rightarrow> UUID \<Rightarrow> string \<Rightarrow> error + Token" where
  "generateJWT L jwtSecret nowIat nowExp userID phoneNumber =
     (let claims = [''sub'' \<mapsto> ClaimString (uuid_String L userID),
                    ''phone'' \<mapsto> ClaimString phoneNumber,
                    ''iat'' \<mapsto> ClaimNumber (Unix nowIat),
                    ''exp'' \<mapsto> ClaimNumber (Unix (Add nowExp (Hour * 24)))];
          token = NewWithClaims HS256 claims
      in case SignedString L token jwtSecret of
           Inl err \<Rightarrow> Inl err
         | Inr signedToken \<Rightarrow> Inr signedToken)"

text \<open>\<open>AuthMiddleware\<close>, from the token carried by the \<open>Authorization: Bearer\<close> header on.
  The type assertion \<open>token.Method.(*jwt.SigningMethodHMAC)\<close> holds for the three HMAC
  methods. The unchecked assertions \<open>claims["sub"].(string)\<close> and
  \<open>claims["phone"].(string)\<close> panic when the claim is missing or not a string. The text of
  the library's error, which the source appends to "Invalid token", is left out.\<close>

definition is_SigningMethodHMAC :: "SigningMethod \<Rightarrow> bool" where
  "is_SigningMethodHMAC m = (m = HS256 \<or> m = HS384 \<or> m = HS512)"

datatype auth_outcome = Next User | AbortUnauthorized string | Panic

definition AuthMiddleware :: "Library \<Rightarrow> string \<Rightarrow> Time \<Rightarrow> Token \<Rightarrow> auth_outcome" where
  "AuthMiddleware L jwtSecret now tokenString =
     (case Parse L now tokenString
             (\<lambda>token. if \<not> is_SigningMethodHMAC (Token_Method token)
                      then Inl (ErrLibrary ''unexpected signing method'')
                      else Inr jwtSecret) of
        Inl err \<Rightarrow> AbortUnauthorized ''Invalid token''
      | Inr token \<Rightarrow>
          (case Token_Claims token ''sub'' of
             Some (ClaimString sub) \<Rightarrow>
               (case uuid_Parse L sub of
                  None \<Rightarrow> AbortUnauthorized ''Invalid user ID in token''
                | Some userID \<Rightarrow>
                    (case Token_Claims token ''phone'' of
                       Some (ClaimString phoneNumber) \<Rightarrow>
                         Next \<lparr>User_ID = userID, User_PhoneNumber = phoneNumber,
                               User_CreatedAt = zeroTime, User_UpdatedAt = zeroTime\<rparr>
                     | _ \<Rightarrow> Panic))
           | _ \<Rightarrow> Panic))"

section \<open>The auth repository (pkg/auth)\<close>

text \<open>The repository as \<open>main\<close> wires it: the in-memory user store, the in-memory OTP
  store and the middleware's rate limiter. The user and OTP repositories in between only
  forward their calls.\<close>

record authRepository =
  userStore :: InMemoryUserStore
  otpStore :: InMemoryOTPStore
  rateLimiter :: InMemoryRateLimiter

definition GetUserByPhoneNumber :: "string \<Rightarrow> authRepository \<Rightarrow> error + User" where
  "GetUserByPhoneNumber phoneNumber r =
     (case InMemoryUserStore_GetUserByPhoneNumber phoneNumber (userStore r) of
        Inl err \<Rightarrow> if err = ErrNotFound then Inl ErrUserNotFound else Inl err
      | Inr u \<Rightarrow> Inr u)"

definition CreateUser ::
  "UUID \<Rightarrow> Time \<Rightarrow> Time \<Rightarrow> User \<Rightarrow> authRepository \<Rightarrow> (error + User) \<times> authRepository" where
  "CreateUser newID now1 now2 user r =
     (let (res, s) = InMemoryUserStore_CreateUser newID now1 now2 user (userStore r)
      in (res, r\<lparr>userStore := s\<rparr>))"

definition StoreOTP :: "UUID \<Rightarrow> Time \<Rightarrow> OTP \<Rightarrow> authRepository \<Rightarrow> error option \<times> authRepository" where
  "StoreOTP newID now otp r =
     (let (err, s) = InMemoryOTPStore_StoreOTP newID now otp (otpStore r)
      in (err, r\<lparr>otpStore := s\<rparr>))"

definition GetOTP :: "string \<Rightarrow> authRepository \<Rightarrow> error + OTP" where
  "GetOTP phoneNumber r = InMemoryOTPStore_GetOTP phoneNumber (otpStore r)"

definition DeleteOTP :: "string \<Rightarrow> authRepository \<Rightarrow> error option \<times> authRepository" where
  "DeleteOTP phoneNumber r =
     (let (err, s) = InMemoryOTPStore_DeleteOTP phoneNumber (otpStore r)
      in (err, r\<lparr>otpStore := s\<rparr>))"

definition AllowOTPRate :: "Time \<Rightarrow> string \<Rightarrow> authRepository \<Rightarrow> bool \<times> authRepository" where
  "AllowOTPRate now phoneNumber r =
     (let (ok, l) = Allow now phoneNumber (rateLimiter r)
      in (ok, r\<lparr>rateLimiter := l\<rparr>))"

section \<open>The auth service (pkg/auth)\<close>

text \<open>What one call of \<open>SendOTP\<close> reads from outside: the clock inside \<open>Allow\<close>, the
  result of the entropy read, the clock for \<open>expiresAt\<close>, and the id and clock reading
  taken inside \<open>StoreOTP\<close>.\<close>

record SendEnv =
  send_allowNow :: Time
  send_entropy :: "(byte \<times> byte \<times> byte) option"
  send_now :: Time
  send_otpID :: UUID
  send_storeNow :: Time

definition SendOTP :: "SendEnv \<Rightarrow> string \<Rightarrow> authRepository \<Rightarrow> error option \<times> authRepository" where
  "SendOTP env phoneNumber r =
     (let (ok, r1) = AllowOTPRate (send_allowNow env) phoneNumber r
      in if \<not> ok then (Some ErrRateLimitExceeded, r1)
         else let otpCode = GenerateOTP (send_entropy env);
                  expiresAt = Add (send_now env) (2 * Minute);
                  otpModel = \<lparr>OTP_ID = 0, OTP_PhoneNumber = phoneNumber, OTP_OTPCode = otpCode,
                              OTP_CreatedAt = zeroTime, OTP_ExpiresAt = expiresAt\<rparr>
              in case StoreOTP (send_otpID env) (send_storeNow env) otpModel r1 of
                   (Some err, r2) \<Rightarrow> (Some ErrProcessOTP, r2)
                 | (None, r2) \<Rightarrow> (None, r2))"

text \<open>What one call of \<open>VerifyOTPAndAuthenticate\<close> reads from outside: the clock inside
  \<open>IsExpired\<close>, the id and the two clock readings inside \<open>CreateUser\<close>, and the two clock
  readings inside \<open>generateJWT\<close>. The three operands of \<open>||\<close> in the first test are
  evaluated from left to right, each only when the ones before it are false.\<close>

record VerifyEnv =
  verify_now :: Time
  verify_userID :: UUID
  verify_createdNow :: Time
  verify_updatedNow :: Time
  verify_iatNow :: Time
  verify_expNow :: Time

definition VerifyOTPAndAuthenticate ::
  "Library \<Rightarrow> string \<Rightarrow> VerifyEnv \<Rightarrow> string \<Rightarrow> string \<Rightarrow> authRepository
     \<Rightarrow> (error + Token) \<times> authRepository" where
  "VerifyOTPAndAuthenticate L jwtSecret env phoneNumber receivedOTP r =
     (case GetOTP phoneNumber r of
        Inl err \<Rightarrow> (Inl ErrInvalidOTP, r)
      | Inr storedOTP \<Rightarrow>
          if OTP_OTPCode storedOTP \<noteq> receivedOTP then (Inl ErrInvalidOTP, r)
          else if IsExpired (verify_now env) storedOTP then (Inl ErrInvalidOTP, r)
          else
            let r1 = snd (DeleteOTP phoneNumber r);
                mint = (\<lambda>user r'.
                  case generateJWT L jwtSecret (verify_iatNow env) (verify_expNow env)
                         (User_ID user) (User_PhoneNumber user) of
                    Inl err \<Rightarrow> (Inl ErrJWTGeneration, r')
                  | Inr token \<Rightarrow> (Inr token, r'))
            in case GetUserByPhoneNumber phoneNumber r1 of
                 Inl err \<Rightarrow>
                   if err = ErrUserNotFound
                   then let newUser = \<lparr>User_ID = 0, User_PhoneNumber = phoneNumber,
                                       User_CreatedAt = zeroTime, User_UpdatedAt = zeroTime\<rparr>
                        in case CreateUser (verify_userID env) (verify_createdNow env)
                                  (verify_updatedNow env) newUser r1 of
                             (Inl createErr, r2) \<Rightarrow> (Inl ErrUserRegistration, r2)
                           | (Inr createdUser, r2) \<Rightarrow> mint createdUser r2
                   else (Inl err, r1)
               | Inr user \<Rightarrow> mint user r1)"

section \<open>Concurrent calls of VerifyOTPAndAuthenticate\<close>

text \<open>Every method of the in-memory stores runs under the store's mutex, so two calls of
  the service that run concurrently interleave at the granularity of the repository
  calls. A call in progress is at one of these points; a step performs the next repository
  call (with the purely local computation that follows it) on the shared repository.\<close>

datatype verify_pc =
    AtGetOTP
  | AtDeleteOTP
  | AtGetUser
  | AtCreateUser
  | AtGenerateJWT User
  | Returned "error + Token"

record VerifyCall =
  call_env :: VerifyEnv
  call_phoneNumber :: string
  call_receivedOTP :: string

fun verify_step ::
  "Library \<Rightarrow> string \<Rightarrow> VerifyCall \<Rightarrow> verify_pc \<Rightarrow> authRepository \<Rightarrow> verify_pc \<times> authRepository" where
  "verify_step L jwtSecret c AtGetOTP r =
     (case GetOTP (call_phoneNumber c) r of
        Inl err \<Rightarrow> (Returned (Inl ErrInvalidOTP), r)
      | Inr storedOTP \<Rightarrow>
          if OTP_OTPCode storedOTP \<noteq> call_receivedOTP c then (Returned (Inl ErrInvalidOTP), r)
          else if IsExpired (verify_now (call_env c)) storedOTP then (Returned (Inl ErrInvalidOTP), r)
          else (AtDeleteOTP, r))"
| "verify_step L jwtSecret c AtDeleteOTP r =
     (AtGetUser, snd (DeleteOTP (call_phoneNumber c) r))"
| "verify_step L jwtSecret c AtGetUser r =
     (case GetUserByPhoneNumber (call_phoneNumber c) r of
        Inl err \<Rightarrow> if err = ErrUserNotFound then (AtCreateUser, r) else (Returned (Inl err), r)
      | Inr user \<Rightarrow> (AtGenerateJWT user, r))"
| "verify_step L jwtSecret c AtCreateUser r =
     (let newUser = \<lparr>User_ID = 0, User_PhoneNumber = call_phoneNumber c,
                     User_CreatedAt = zeroTime, User_UpdatedAt = zeroTime\<rparr>
      in case CreateUser (verify_userID (call_env c)) (verify_createdNow (call_env c))
                (verify_updatedNow (call_env c)) newUser r of
           (Inl createErr, r2) \<Rightarrow> (Returned (Inl ErrUserRegistration), r2)
         | (Inr createdUser, r2) \<Rightarrow> (AtGenerateJWT createdUser, r2))"
| "verify_step L jwtSecret c (AtGenerateJWT user) r =
     (case generateJWT L jwtSecret (verify_iatNow (call_env c)) (verify_expNow (call_env c))
             (User_ID user) (User_PhoneNumber user) of
        Inl err \<Rightarrow> (Returned (Inl ErrJWTGeneration), r)
      | Inr token \<Rightarrow> (Returned (Inr token), r))"
| "verify_step L jwtSecret c (Returned res) r = (Returned res, r)"

text \<open>Two calls in flight on one repository. A schedule says, step by step, which of the
  two calls moves (\<open>True\<close>: the first).\<close>

fun run_schedule ::
  "Library \<Rightarrow> string \<Rightarrow> VerifyCall \<Rightarrow> VerifyCall \<Rightarrow> bool list
     \<Rightarrow> verify_pc \<times> verify_pc \<times> authRepository \<Rightarrow> verify_pc \<times> verify_pc \<times> authRepository" where
  "run_schedule L jwtSecret c1 c2 [] st = st"
| "run_schedule L jwtSecret c1 c2 (first # sched) (pc1, pc2, r) =
     (if first
      then (let (pc1', r') = verify_step L jwtSecret c1 pc1 r
            in run_schedule L jwtSecret c1 c2 sched (pc1', pc2, r'))
      else (let (pc2', r') = verify_step L jwtSecret c2 pc2 r
            in run_schedule L jwtSecret c1 c2 sched (pc1, pc2', r')))"

section \<open>The wired request path of /otp/send (cmd/app/main.go, internal/api)\<close>

text \<open>\<open>main\<close> builds one rate limiter, \<open>NewInMemoryRateLimiter(3, 2*time.Minute)\<close>, and
  hands the same instance to the auth repository and to the router; in the model both
  reach it as the field \<open>rateLimiter\<close> of the repository.\<close>

definition main_repository :: authRepository where
  "main_repository =
     \<lparr>userStore = NewInMemoryUserStore, otpStore = NewInMemoryOTPStore,
      rateLimiter = NewInMemoryRateLimiter 3 (2 * Minute)\<rparr>"

datatype status =
    StatusOK
  | StatusBadRequest
  | StatusTooManyRequests
  | StatusInternalServerError

text \<open>The handler \<open>Handler.SendOTP\<close>, given the request the middleware bound and stored
  in the context (on this route the request is always there and of the right type, so the
  handler's two defensive 500 answers do not occur).\<close>

definition Handler_SendOTP :: "SendEnv \<Rightarrow> string \<Rightarrow> authRepository \<Rightarrow> status \<times> authRepository" where
  "Handler_SendOTP env phoneNumber r =
     (case SendOTP env phoneNumber r of
        (Some err, r') \<Rightarrow>
          if err = ErrRateLimitExceeded then (StatusTooManyRequests, r')
          else (StatusInternalServerError, r')
      | (None, r') \<Rightarrow> (StatusOK, r'))"

text \<open>The middleware \<open>OTPRateLimiter\<close>. \<open>bound\<close> is the result of binding and validating
  the JSON body (\<open>None\<close>: the binding failed); \<open>next\<close> is the handler that follows.\<close>

definition OTPRateLimiter ::
  "Time \<Rightarrow> string option \<Rightarrow> (string \<Rightarrow> authRepository \<Rightarrow> status \<times> authRepository)
     \<Rightarrow> authRepository \<Rightarrow> status \<times> authRepository" where
  "OTPRateLimiter now bound next r =
     (case bound of
        None \<Rightarrow> (StatusBadRequest, r)
      | Some phoneNumber \<Rightarrow>
          (let (ok, l) = Allow now phoneNumber (rateLimiter r);
               r' = r\<lparr>rateLimiter := l\<rparr>
           in if \<not> ok then (StatusTooManyRequests, r')
              else next phoneNumber r'))"

text \<open>\<open>authRoutes.POST("/send", middleware.OTPRateLimiter(otpRateLimiter), authHandler.SendOTP)\<close>\<close>

definition post_otp_send ::
  "Time \<Rightarrow> SendEnv \<Rightarrow> string option \<Rightarrow> authRepository \<Rightarrow> status \<times> authRepository" where
  "post_otp_send now env bound r = OTPRateLimiter now bound (Handler_SendOTP env) r"

section \<open>Notions used to state the properties\<close>

text \<open>The three random bytes read as one number, the number a string of decimal digits
  denotes, and the set of entropy inputs for which \<open>GenerateOTP\<close> returns a given code.\<close>

definition bytes_value :: "byte \<times> byte \<times> byte \<Rightarrow> int" where
  "bytes_value t = (case t of (b0, b1, b2) \<Rightarrow> uint b0 * 65536 + uint b1 * 256 + uint b2)"

definition dec_value :: "string \<Rightarrow> nat" where
  "dec_value s = foldl (\<lambda>a ch. a * 10 + (of_char ch - 48)) 0 s"

definition otp_inputs :: "string \<Rightarrow> (byte \<times> byte \<times> byte) set" where
  "otp_inputs code = {t. GenerateOTP (Some t) = code}"

text \<open>A series of \<open>SendOTP\<close> calls for one phone number, one after the other, with the
  result of each.\<close>

fun send_all :: "SendEnv list \<Rightarrow> string \<Rightarrow> authRepository \<Rightarrow> error option list \<times> authRepository" where
  "send_all [] phoneNumber r = ([], r)"
| "send_all (env # envs) phoneNumber r =
     (let (res, r1) = SendOTP env phoneNumber r;
          (ress, r2) = send_all envs phoneNumber r1
      in (res # ress, r2))"

text \<open>The operations of the service, run one after the other on the repository; an
  operation requests a code for a phone number when it is a \<open>SendOTP\<close> for that number.\<close>

datatype operation =
    OpSendOTP SendEnv string
  | OpVerify VerifyEnv string string

fun apply_operation :: "Library \<Rightarrow> string \<Rightarrow> operation \<Rightarrow> authRepository \<Rightarrow> authRepository" where
  "apply_operation L jwtSecret (OpSendOTP env phoneNumber) r = snd (SendOTP env phoneNumber r)"
| "apply_operation L jwtSecret (OpVerify env phoneNumber receivedOTP) r =
     snd (VerifyOTPAndAuthenticate L jwtSecret env phoneNumber receivedOTP r)"

fun requests_code_for :: "string \<Rightarrow> operation \<Rightarrow> bool" where
  "requests_code_for phoneNumber (OpSendOTP env p) = (p = phoneNumber)"
| "requests_code_for phoneNumber (OpVerify env p receivedOTP) = False"

section \<open>Concrete scenarios\<close>

text \<open>The scenario of the specification: a code is requested for \<open>+15551234567\<close> on the
  freshly wired repository at instant 0; the three random bytes 7, 94, 97 give the code
  \<open>482913\<close>, stored with a 2-minute expiry; verification is asked for after one minute
  (\<open>verify_env_1\<close>), at the expiry instant and one nanosecond later. \<open>test_Library\<close> is one instance of the
  libraries (a UUID is printed as that many letters, the MAC depends on the key only);
  \<open>failing_Library\<close> is the same with a signing primitive that reports an error.\<close>

definition test_Library :: Library where
  "test_Library =
     \<lparr>uuid_String = (\<lambda>u. replicate (unat u) CHR ''u''),
      uuid_Parse = (\<lambda>s. Some (of_nat (length s))),
      method_Sign = (\<lambda>m key input. Inr (''mac-'' @ key))\<rparr>"

definition failing_Library :: Library where
  "failing_Library =
     test_Library\<lparr>method_Sign := (\<lambda>m key input. Inl (ErrLibrary ''hash unavailable''))\<rparr>"

definition send_env_1 :: SendEnv where
  "send_env_1 = \<lparr>send_allowNow = 0, send_entropy = Some (7, 94, 97), send_now = 0,
                  send_otpID = 1, send_storeNow = 0\<rparr>"

definition send_env_at :: "Time \<Rightarrow> SendEnv" where
  "send_env_at t = \<lparr>send_allowNow = t, send_entropy = Some (7, 94, 97), send_now = t,
                     send_otpID = 1, send_storeNow = t\<rparr>"

definition send_env_no_entropy :: SendEnv where
  "send_env_no_entropy = send_env_1\<lparr>send_entropy := None\<rparr>"

definition repository_1 :: authRepository where
  "repository_1 = snd (SendOTP send_env_1 ''+15551234567'' main_repository)"

definition verify_env_1 :: VerifyEnv where
  "verify_env_1 = \<lparr>verify_now = Minute, verify_userID = 7, verify_createdNow = Minute,
                    verify_updatedNow = Minute, verify_iatNow = Minute,
                    verify_expNow = Minute\<rparr>"

definition verify_env_boundary :: VerifyEnv where
  "verify_env_boundary = verify_env_1\<lparr>verify_now := 2 * Minute\<rparr>"

definition verify_env_late :: VerifyEnv where
  "verify_env_late = verify_env_1\<lparr>verify_now := 2 * Minute + 1\<rparr>"

definition call_A :: VerifyCall where
  "call_A = \<lparr>call_env = verify_env_1, call_phoneNumber = ''+15551234567'',
              call_receivedOTP = ''482913''\<rparr>"

definition call_B :: VerifyCall where
  "call_B = \<lparr>call_env = verify_env_1\<lparr>verify_userID := 8\<rparr>,
              call_phoneNumber = ''+15551234567'', call_receivedOTP = ''482913''\<rparr>"

text \<open>The token minted at minute 1 for the user with id 7.\<close>

definition token_1 :: Token where
  "token_1 = \<lparr>Token_Method = HS256,
              Token_Claims = [''sub'' \<mapsto> ClaimString ''uuuuuuu'',
                              ''phone'' \<mapsto> ClaimString ''+15551234567'',
                              ''iat'' \<mapsto> ClaimNumber 60,
                              ''exp'' \<mapsto> ClaimNumber 86460],
              Token_Signature = ''mac-secret''\<rparr>"

text \<open>A library whose MAC differs from one signing method to the other, and the claims of
  \<open>token_1\<close> signed under HS384 with the same secret.\<close>

definition method_Library :: Library where
  "method_Library =
     test_Library\<lparr>method_Sign := (\<lambda>m key input.
        Inr ((if m = HS256 then ''hs256-'' else if m = HS384 then ''hs384-'' else ''other-'') @ key))\<rparr>"

definition token_hs384 :: Token where
  "token_hs384 = \<lparr>Token_Method = HS384, Token_Claims = Token_Claims token_1,
                  Token_Signature = ''hs384-secret''\<rparr>"

text \<open>A call returned a token; a call in progress has returned a token.\<close>

definition returns_token :: "(error + Token) \<times> authRepository \<Rightarrow> bool" where
  "returns_token res = (case fst res of Inl err \<Rightarrow> False | Inr token \<Rightarrow> True)"

definition returned_token :: "verify_pc \<Rightarrow> bool" where
  "returned_token pc = (case pc of Returned (Inr token) \<Rightarrow> True | _ \<Rightarrow> False)"

section \<open>The code generator: format and distribution\<close>

lemma otp_number_arith:
  "otp_number b0 b1 b2 = (uint b0 * 65536 + uint b1 * 256 + uint b2) mod 1000000"
proof -
  have b0: "uint b0 < 256" "0 \<le> uint b0" using uint_lt2p [of b0] by simp_all
  have b1: "uint b1 < 256" "0 \<le> uint b1" using uint_lt2p [of b1] by simp_all
  have b2: "uint b2 < 256" "0 \<le> uint b2" using uint_lt2p [of b2] by simp_all
  have d1: "push_bit 8 (uint b1) OR uint b2 = push_bit 8 (uint b1) + uint b2"
    by (rule disjunctive_add [symmetric]) (auto simp: bit_push_bit_iff bit_uint_iff dest: bit_imp_le_length)
  have d2: "push_bit 16 (uint b0) OR (push_bit 8 (uint b1) + uint b2)
        = push_bit 16 (uint b0) + (push_bit 8 (uint b1) + uint b2)"
    unfolding d1 [symmetric]
    by (rule disjunctive_add [symmetric]) (auto simp: bit_push_bit_iff bit_or_iff bit_uint_iff dest: bit_imp_le_length)
  have "push_bit 16 (uint b0) OR push_bit 8 (uint b1) OR uint b2
        = push_bit 16 (uint b0) + (push_bit 8 (uint b1) + uint b2)"
    by (simp only: d1 d2)
  then show ?thesis
    unfolding otp_number_def by (simp add: push_bit_eq_mult add.assoc)
qed

lemma otp_number_range: "0 \<le> otp_number b0 b1 b2 \<and> otp_number b0 b1 b2 < 1000000"
  by (simp add: otp_number_def)

lemma digit_char_digit: "d < 10 \<Longrightarrow> digit_char d \<in> set ''0123456789''"
  unfolding digit_char_def by (rule nth_mem) simp

lemma dec_digits_digits: "set (dec_digits n) \<subseteq> set ''0123456789''"
proof (induction n rule: dec_digits.induct)
  case (1 n)
  show ?case
  proof (cases "n < 10")
    case True
    then show ?thesis using digit_char_digit [of n] by (subst dec_digits.simps) simp
  next
    case False
    have "digit_char (n mod 10) \<in> set ''0123456789''" by (rule digit_char_digit) simp
    with False 1 show ?thesis by (subst dec_digits.simps) auto
  qed
qed

lemma dec_digits_length: "0 < k \<Longrightarrow> n < 10 ^ k \<Longrightarrow> length (dec_digits n) \<le> k"
proof (induction n arbitrary: k rule: dec_digits.induct)
  case (1 n)
  show ?case
  proof (cases "n < 10")
    case True
    with 1(2) show ?thesis by (subst dec_digits.simps) simp
  next
    case False
    with 1(2,3) have k: "1 < k" by (cases "k = 1") auto
    then obtain j where j: "k = Suc j" "0 < j" by (cases k) auto
    from 1(3) j have "n div 10 < 10 ^ j" by (simp add: less_mult_imp_div_less mult.commute)
    with 1(1) [OF False j(2)] have "length (dec_digits (n div 10)) \<le> j" .
    with False j show ?thesis by (subst dec_digits.simps) simp
  qed
qed

lemma Sprintf_06d_shape:
  assumes "0 \<le> n" "n < 1000000"
  shows "length (Sprintf_06d n) = 6 \<and> set (Sprintf_06d n) \<subseteq> set ''0123456789''"
proof -
  have "nat n < 10 ^ 6" using assms by simp
  then have len: "length (dec_digits (nat n)) \<le> 6" by (intro dec_digits_length) simp_all
  have "set (replicate (6 - length (dec_digits (nat n))) CHR ''0'') \<subseteq> set ''0123456789''"
    by (auto simp: set_replicate_conv_if)
  with dec_digits_digits [of "nat n"] len assms show ?thesis
    by (simp add: Sprintf_06d_def Let_def)
qed

lemma GenerateOTP_shape:
  "length (GenerateOTP rnd) = 6 \<and> set (GenerateOTP rnd) \<subseteq> set ''0123456789''"
proof (cases rnd)
  case None
  then show ?thesis by (simp add: GenerateOTP_def)
next
  case (Some t)
  obtain b0 b1 b2 where "t = (b0, b1, b2)" by (cases t) auto
  with Some Sprintf_06d_shape [of "otp_number b0 b1 b2"] otp_number_range [of b0 b1 b2]
  show ?thesis by (simp add: GenerateOTP_def)
qed

lemma split3:
  fixes x y z :: int
  assumes "0 \<le> x" "x < 256" "0 \<le> y" "y < 256" "0 \<le> z" "z < 256"
  shows "(x * 65536 + y * 256 + z) mod 256 = z"
    and "(x * 65536 + y * 256 + z) div 256 mod 256 = y"
    and "(x * 65536 + y * 256 + z) div 65536 = x"
proof -
  have m: "(q * 256 + r) mod 256 = r" "(q * 256 + r) div 256 = q"
    if "0 \<le> r" "r < 256" for q r :: int
    using that by simp_all
  have r: "x * 65536 + y * 256 + z = (x * 256 + y) * 256 + z" by simp
  show "(x * 65536 + y * 256 + z) mod 256 = z"
    by (simp only: r m assms)
  show "(x * 65536 + y * 256 + z) div 256 mod 256 = y"
    by (simp only: r m assms)
  show "(x * 65536 + y * 256 + z) div 65536 = x"
  proof -
    have "(x * 65536 + y * 256 + z) div 65536 = (x * 65536 + y * 256 + z) div 256 div 256"
      by (simp add: div_mult2_eq [symmetric])
    also have "\<dots> = x" by (simp only: r m assms)
    finally show ?thesis .
  qed
qed

lemma bytes_value_range: "bytes_value t \<in> {0..<16777216}"
proof -
  obtain b0 b1 b2 where t: "t = (b0, b1, b2)" by (cases t) auto
  have "uint b0 < 256" "uint b1 < 256" "uint b2 < 256"
    using uint_lt2p [of b0] uint_lt2p [of b1] uint_lt2p [of b2] by simp_all
  then show ?thesis by (simp add: t bytes_value_def)
qed

lemma bytes_value_inj: "inj bytes_value"
proof (rule injI)
  fix s t assume eq: "bytes_value s = bytes_value t"
  obtain a0 a1 a2 where s: "s = (a0, a1, a2)" by (cases s) auto
  obtain b0 b1 b2 where t: "t = (b0, b1, b2)" by (cases t) auto
  have a: "uint a0 < 256" "uint a1 < 256" "uint a2 < 256" "0 \<le> uint a0" "0 \<le> uint a1" "0 \<le> uint a2"
    using uint_lt2p [of a0] uint_lt2p [of a1] uint_lt2p [of a2] by simp_all
  have b: "uint b0 < 256" "uint b1 < 256" "uint b2 < 256" "0 \<le> uint b0" "0 \<le> uint b1" "0 \<le> uint b2"
    using uint_lt2p [of b0] uint_lt2p [of b1] uint_lt2p [of b2] by simp_all
  from eq have e: "uint a0 * 65536 + uint a1 * 256 + uint a2 = uint b0 * 65536 + uint b1 * 256 + uint b2"
    by (simp add: s t bytes_value_def)
  have "uint a0 = uint b0"
    using split3(3) [OF a(4) a(1) a(5) a(2) a(6) a(3)] split3(3) [OF b(4) b(1) b(5) b(2) b(6) b(3)] e by simp
  moreover have "uint a1 = uint b1"
    using split3(2) [OF a(4) a(1) a(5) a(2) a(6) a(3)] split3(2) [OF b(4) b(1) b(5) b(2) b(6) b(3)] e by simp
  moreover have "uint a2 = uint b2"
    using split3(1) [OF a(4) a(1) a(5) a(2) a(6) a(3)] split3(1) [OF b(4) b(1) b(5) b(2) b(6) b(3)] e by simp
  ultimately show "s = t" by (simp add: s t word_uint_eq_iff)
qed

lemma bytes_value_image: "bytes_value ` UNIV = {0..<16777216}"
proof (rule card_subset_eq)
  show "finite {0..<16777216::int}" by simp
  show "bytes_value ` UNIV \<subseteq> {0..<16777216}" using bytes_value_range by auto
  have "card (bytes_value ` (UNIV :: (byte \<times> byte \<times> byte) set)) = card (UNIV :: (byte \<times> byte \<times> byte) set)"
    by (rule card_image) (rule bytes_value_inj)
  also have "\<dots> = 16777216" by (simp add: card_prod card_word)
  finally show "card (bytes_value ` UNIV) = card {0..<16777216::int}" by simp
qed

lemma residue_class:
  assumes c: "0 \<le> c" "c < 1000000"
  shows "{n \<in> {0..<16777216::int}. n mod 1000000 = c}
       = (\<lambda>k. c + k * 1000000) ` {0..<(if c < 777216 then 17 else 16)}"
proof (intro set_eqI iffI)
  fix n assume "n \<in> {n \<in> {0..<16777216::int}. n mod 1000000 = c}"
  then have n: "0 \<le> n" "n < 16777216" "n mod 1000000 = c" by auto
  have dec: "n = c + (n div 1000000) * 1000000" using n(3) by (simp add: mult.commute flip: n(3))
  have "0 \<le> n div 1000000" using n(1) by simp
  moreover have "n div 1000000 < (if c < 777216 then 17 else 16)" using n dec c by (auto split: if_splits)
  ultimately show "n \<in> (\<lambda>k. c + k * 1000000) ` {0..<(if c < 777216 then 17 else 16)}"
    using dec by (intro image_eqI [where x = "n div 1000000"]) auto
next
  fix n assume "n \<in> (\<lambda>k. c + k * 1000000) ` {0..<(if c < 777216 then 17 else 16)}"
  then obtain k where k: "n = c + k * 1000000" "0 \<le> k" "k < (if c < 777216 then 17 else 16)" by auto
  then show "n \<in> {n \<in> {0..<16777216::int}. n mod 1000000 = c}" using c by (auto split: if_splits)
qed

lemma residue_class_card:
  assumes c: "0 \<le> c" "c < 1000000"
  shows "card {n \<in> {0..<16777216::int}. n mod 1000000 = c} = (if c < 777216 then 17 else 16)"
proof -
  have "inj_on (\<lambda>k::int. c + k * 1000000) {0..<(if c < 777216 then 17 else 16)}"
    by (rule inj_onI) simp
  then have "card ((\<lambda>k::int. c + k * 1000000) ` {0..<(if c < 777216 then 17 else 16)})
      = card {0..<(if c < 777216 then 17 else 16 :: int)}" by (rule card_image)
  then show ?thesis unfolding residue_class [OF c] by simp
qed

lemma otp_preimage_card:
  assumes c: "0 \<le> c" "c < 1000000"
  shows "card {(b0, b1, b2). otp_number b0 b1 b2 = c} = (if c < 777216 then 17 else 16)"
proof -
  have 1: "{(b0, b1, b2). otp_number b0 b1 b2 = c} = {t. bytes_value t mod 1000000 = c}"
    by (auto simp: otp_number_arith bytes_value_def)
  have 2: "card (bytes_value ` {t. bytes_value t mod 1000000 = c}) = card {t. bytes_value t mod 1000000 = c}"
    by (rule card_image) (rule inj_on_subset [OF bytes_value_inj], simp)
  have 3: "bytes_value ` {t. bytes_value t mod 1000000 = c} = {n \<in> {0..<16777216}. n mod 1000000 = c}"
    using bytes_value_image by auto
  show ?thesis
    unfolding 1 2 [symmetric] 3 by (rule residue_class_card [OF c])
qed

lemma digit_char_value: "d < 10 \<Longrightarrow> of_char (digit_char d) = 48 + d"
proof -
  assume "d < 10"
  then have "d = 0 \<or> d = 1 \<or> d = 2 \<or> d = 3 \<or> d = 4 \<or> d = 5 \<or> d = 6 \<or> d = 7 \<or> d = 8 \<or> d = 9"
    by presburger
  then show ?thesis by (elim disjE) (simp_all add: digit_char_def)
qed

lemma dec_value_snoc: "dec_value (s @ [ch]) = dec_value s * 10 + (of_char ch - 48)"
  by (simp add: dec_value_def)

lemma dec_value_dec_digits: "dec_value (dec_digits n) = n"
proof (induction n rule: dec_digits.induct)
  case (1 n)
  show ?case
  proof (cases "n < 10")
    case True
    then show ?thesis by (subst dec_digits.simps) (simp add: dec_value_def digit_char_value)
  next
    case False
    have "of_char (digit_char (n mod 10)) = 48 + n mod 10" by (rule digit_char_value) simp
    with False 1 show ?thesis by (subst dec_digits.simps) (simp add: dec_value_snoc)
  qed
qed

lemma dec_value_zeros: "dec_value (replicate k CHR ''0'' @ s) = dec_value s"
proof -
  have "foldl (\<lambda>a ch. a * 10 + (of_char ch - 48)) 0 (replicate k CHR ''0'') = (0::nat)"
    by (induction k) simp_all
  then show ?thesis by (simp add: dec_value_def)
qed

lemma dec_value_Sprintf_06d: "0 \<le> n \<Longrightarrow> dec_value (Sprintf_06d n) = nat n"
  by (simp add: Sprintf_06d_def Let_def dec_value_zeros dec_value_dec_digits)

lemma Sprintf_06d_inj: "0 \<le> m \<Longrightarrow> 0 \<le> n \<Longrightarrow> Sprintf_06d m = Sprintf_06d n \<Longrightarrow> m = n"
  using dec_value_Sprintf_06d [of m] dec_value_Sprintf_06d [of n] by simp


lemma otp_inputs_card:
  assumes c: "0 \<le> c" "c < 1000000"
  shows "card (otp_inputs (Sprintf_06d c)) = (if c < 777216 then 17 else 16)"
proof -
  have "otp_inputs (Sprintf_06d c) = {(b0, b1, b2). otp_number b0 b1 b2 = c}"
  proof (rule set_eqI)
    fix t :: "byte \<times> byte \<times> byte"
    obtain b0 b1 b2 where t: "t = (b0, b1, b2)" by (cases t) auto
    have "0 \<le> otp_number b0 b1 b2" using otp_number_range by blast
    then have "Sprintf_06d (otp_number b0 b1 b2) = Sprintf_06d c \<longleftrightarrow> otp_number b0 b1 b2 = c"
      using Sprintf_06d_inj [OF _ c(1)] by blast
    then show "t \<in> otp_inputs (Sprintf_06d c) \<longleftrightarrow> t \<in> {(b0, b1, b2). otp_number b0 b1 b2 = c}"
      by (simp add: t otp_inputs_def GenerateOTP_def)
  qed
  then show ?thesis by (simp only: otp_preimage_card [OF c])
qed

lemma dec_digits_small: "n < 10 \<Longrightarrow> dec_digits n = [digit_char n]"
  by (subst dec_digits.simps) simp
lemma dec_digits_large: "\<not> n < 10 \<Longrightarrow> dec_digits n = dec_digits (n div 10) @ [digit_char (n mod 10)]"
  by (subst dec_digits.simps) simp
lemma replicate_numeral: "replicate (numeral k) x = x # replicate (pred_numeral k) x"
  by (simp add: numeral_eq_Suc)
lemmas Sprintf_eval = Sprintf_06d_def dec_digits_small dec_digits_large replicate_numeral digit_char_def

lemma Sprintf_06d_0: "Sprintf_06d 0 = ''000000''"
  by (simp add: Sprintf_eval)

lemma Sprintf_06d_42: "Sprintf_06d 42 = ''000042''"
  by (simp add: Sprintf_eval)

lemma Sprintf_06d_999999: "Sprintf_06d 999999 = ''999999''"
  by (simp add: Sprintf_eval)

text \<open>C8, as stated, fails: the code \<open>000000\<close> is returned for 17 of the 16777216 possible
  triples of random bytes, the code \<open>999999\<close> for 16 of them, so the codes are not equally
  likely.\<close>

theorem GenerateOTP_uniform_counterexample:
  "card (otp_inputs ''000000'') = 17 \<and> card (otp_inputs ''999999'') = 16"
  using otp_inputs_card [of 0] otp_inputs_card [of 999999]
  by (simp add: Sprintf_06d_0 Sprintf_06d_999999)

text \<open>C8 (amended): \<open>GenerateOTP\<close> always returns a string of exactly 6 decimal digits,
  whatever the entropy source gave; for a code value \<open>c\<close> between 0 and 999999, the number
  of triples of random bytes for which the zero-padded code of \<open>c\<close> is returned is 17 when
  \<open>c < 777216\<close> and 16 otherwise (every code can be drawn, but not with the same
  frequency).\<close>

theorem GenerateOTP_six_digits_distribution:
  "length (GenerateOTP rnd) = 6 \<and> set (GenerateOTP rnd) \<subseteq> set ''0123456789'' \<and>
   (0 \<le> c \<and> c < 1000000 \<longrightarrow>
      card (otp_inputs (Sprintf_06d c)) = (if c < 777216 then 17 else 16))"
  using GenerateOTP_shape [of rnd] otp_inputs_card [of c] by blast

theorem GenerateOTP_six_digits_distribution_witness:
  "length (GenerateOTP (Some (0, 0, 42))) = 6 \<and> (0::int) \<le> 42 \<and> (42::int) < 1000000 \<and>
   card (otp_inputs ''000042'') = 17"
  using GenerateOTP_six_digits_distribution [of "Some (0, 0, 42)" 42]
  by (simp add: Sprintf_06d_42)

section \<open>The code generator: failure of the entropy source\<close>

lemma GenerateOTP_482913: "GenerateOTP (Some (7, 94, 97)) = ''482913''"
  by (simp add: GenerateOTP_def otp_number_arith Sprintf_eval)

text \<open>C5 (the code departs from the claim): when the read from the entropy source fails,
  \<open>GenerateOTP\<close> returns the fixed code \<open>000000\<close>, and the enclosing \<open>SendOTP\<close> succeeds and
  stores that code instead of failing.\<close>

theorem entropy_failure_falls_back_to_fixed_code:
  "GenerateOTP None = ''000000'' \<and>
   fst (SendOTP send_env_no_entropy ''+15551234567'' main_repository) = None \<and>
   map_option OTP_OTPCode
     (otps (otpStore (snd (SendOTP send_env_no_entropy ''+15551234567'' main_repository)))
        ''+15551234567'')
     = Some ''000000''"
  by (simp add: GenerateOTP_def SendOTP_def send_env_no_entropy_def send_env_1_def
      main_repository_def AllowOTPRate_def Allow_def NewInMemoryRateLimiter_def slice_at_def
      StoreOTP_def InMemoryOTPStore_StoreOTP_def Let_def)

section \<open>Verification, one call after the other\<close>

lemma repository_1_eq:
  "repository_1 =
     \<lparr>userStore = \<lparr>users = Map.empty, phoneIndex = Map.empty\<rparr>,
      otpStore = \<lparr>otps = [''+15551234567'' \<mapsto> \<lparr>OTP_ID = 1, OTP_PhoneNumber = ''+15551234567'',
                    OTP_OTPCode = ''482913'', OTP_CreatedAt = 0, OTP_ExpiresAt = 2 * Minute\<rparr>]\<rparr>,
      rateLimiter = \<lparr>requests = [''+15551234567'' \<mapsto> [0]], maxReq = 3, timeWindow = 2 * Minute\<rparr>\<rparr>"
  by (simp add: repository_1_def SendOTP_def send_env_1_def main_repository_def AllowOTPRate_def
      Allow_def NewInMemoryRateLimiter_def slice_at_def StoreOTP_def InMemoryOTPStore_StoreOTP_def
      Let_def GenerateOTP_482913 NewInMemoryOTPStore_def NewInMemoryUserStore_def Add_def)

lemma repository_1_otps:
  "otps (otpStore repository_1) =
     [''+15551234567'' \<mapsto> \<lparr>OTP_ID = 1, OTP_PhoneNumber = ''+15551234567'', OTP_OTPCode = ''482913'',
        OTP_CreatedAt = 0, OTP_ExpiresAt = 2 * Minute\<rparr>]"
  by (simp add: repository_1_eq)

lemma repository_1_users: "userStore repository_1 = NewInMemoryUserStore"
  by (simp add: repository_1_eq NewInMemoryUserStore_def)

lemma GetOTP_absent: "otps (otpStore r) phoneNumber = None \<Longrightarrow> GetOTP phoneNumber r = Inl ErrNotFound"
  by (simp add: GetOTP_def InMemoryOTPStore_GetOTP_def)

lemma GetOTP_present: "otps (otpStore r) phoneNumber = Some otp \<Longrightarrow> GetOTP phoneNumber r = Inr otp"
  by (simp add: GetOTP_def InMemoryOTPStore_GetOTP_def)

lemma DeleteOTP_otps: "otps (otpStore (snd (DeleteOTP phoneNumber r))) = (otps (otpStore r))(phoneNumber := None)"
  by (simp add: DeleteOTP_def InMemoryOTPStore_DeleteOTP_def)

lemma CreateUser_otpStore: "CreateUser i t1 t2 u r = (res, r2) \<Longrightarrow> otpStore r2 = otpStore r"
  by (auto simp: CreateUser_def InMemoryUserStore_CreateUser_def Let_def split: prod.splits if_splits)

lemma Verify_absent:
  "otps (otpStore r) phoneNumber = None \<Longrightarrow>
   VerifyOTPAndAuthenticate L jwtSecret env phoneNumber receivedOTP r = (Inl ErrInvalidOTP, r)"
  by (simp add: VerifyOTPAndAuthenticate_def GetOTP_absent)

lemma Verify_wrong_code:
  "otps (otpStore r) phoneNumber = Some otp \<Longrightarrow> OTP_OTPCode otp \<noteq> receivedOTP \<Longrightarrow>
   VerifyOTPAndAuthenticate L jwtSecret env phoneNumber receivedOTP r = (Inl ErrInvalidOTP, r)"
  by (simp add: VerifyOTPAndAuthenticate_def GetOTP_present)

lemma Verify_expired:
  "otps (otpStore r) phoneNumber = Some otp \<Longrightarrow> OTP_ExpiresAt otp < verify_now env \<Longrightarrow>
   VerifyOTPAndAuthenticate L jwtSecret env phoneNumber receivedOTP r = (Inl ErrInvalidOTP, r)"
  by (simp add: VerifyOTPAndAuthenticate_def GetOTP_present IsExpired_def After_def)

text \<open>What the call does once the OTP check has passed.\<close>

lemma Verify_passed:
  assumes "otps (otpStore r) phoneNumber = Some otp" "OTP_OTPCode otp = receivedOTP"
    "verify_now env \<le> OTP_ExpiresAt otp"
  shows "otps (otpStore (snd (VerifyOTPAndAuthenticate L jwtSecret env phoneNumber receivedOTP r))) phoneNumber = None"
    and "fst (VerifyOTPAndAuthenticate L jwtSecret env phoneNumber receivedOTP r) \<noteq> Inl ErrInvalidOTP"
  using assms
  by (auto simp: VerifyOTPAndAuthenticate_def GetOTP_present IsExpired_def After_def Let_def
      DeleteOTP_otps GetUserByPhoneNumber_def
      InMemoryUserStore_GetUserByPhoneNumber_def
      dest: CreateUser_otpStore
      split: sum.splits prod.splits option.splits)

lemma Verify_token_deleted:
  assumes "fst (VerifyOTPAndAuthenticate L jwtSecret env phoneNumber receivedOTP r) = Inr token"
  shows "otps (otpStore (snd (VerifyOTPAndAuthenticate L jwtSecret env phoneNumber receivedOTP r))) phoneNumber = None"
proof (cases "otps (otpStore r) phoneNumber")
  case None
  with assms show ?thesis by (simp add: Verify_absent)
next
  case (Some otp)
  show ?thesis
  proof (cases "OTP_OTPCode otp = receivedOTP \<and> verify_now env \<le> OTP_ExpiresAt otp")
    case True
    with Some show ?thesis by (intro Verify_passed(1)) auto
  next
    case False
    with Some assms show ?thesis
      using Verify_wrong_code [OF Some, of receivedOTP L jwtSecret env]
        Verify_expired [OF Some, of env L jwtSecret receivedOTP]
      by (cases "OTP_OTPCode otp = receivedOTP") auto
  qed
qed

lemmas eval_defs = VerifyOTPAndAuthenticate_def GetOTP_def InMemoryOTPStore_GetOTP_def IsExpired_def After_def
  Let_def GetUserByPhoneNumber_def InMemoryUserStore_GetUserByPhoneNumber_def
  DeleteOTP_def InMemoryOTPStore_DeleteOTP_def NewInMemoryUserStore_def
  CreateUser_def InMemoryUserStore_CreateUser_def generateJWT_def SignedString_def NewWithClaims_def
  returns_token_def Minute_def Second_def

lemma Verify_1:
  "returns_token (VerifyOTPAndAuthenticate test_Library ''secret'' verify_env_1 ''+15551234567'' ''482913'' repository_1)"
  by (simp add: eval_defs repository_1_otps repository_1_users verify_env_1_def test_Library_def)

lemma SendOTP_otps_other:
  "phoneNumber \<noteq> p \<Longrightarrow>
   otps (otpStore (snd (SendOTP env phoneNumber r))) p = otps (otpStore r) p"
  by (auto simp: SendOTP_def AllowOTPRate_def StoreOTP_def InMemoryOTPStore_StoreOTP_def Let_def
      split: prod.splits)

lemma Verify_otps_absent:
  "otps (otpStore r) p = None \<Longrightarrow>
   otps (otpStore (snd (VerifyOTPAndAuthenticate L jwtSecret env phoneNumber receivedOTP r))) p = None"
  by (auto simp: VerifyOTPAndAuthenticate_def Let_def GetOTP_def InMemoryOTPStore_GetOTP_def
      DeleteOTP_otps dest: CreateUser_otpStore split: sum.splits prod.splits option.splits)

lemma operations_keep_absent:
  "otps (otpStore r) p = None \<Longrightarrow> \<forall>op \<in> set ops. \<not> requests_code_for p op \<Longrightarrow>
   otps (otpStore (fold (apply_operation L jwtSecret) ops r)) p = None"
proof (induction ops arbitrary: r)
  case Nil
  then show ?case by simp
next
  case (Cons op ops)
  have "otps (otpStore (apply_operation L jwtSecret op r)) p = None"
  proof (cases op)
    case (OpSendOTP env q)
    with Cons.prems show ?thesis by (simp add: SendOTP_otps_other)
  next
    case (OpVerify env q receivedOTP)
    with Cons.prems show ?thesis by (simp add: Verify_otps_absent)
  qed
  with Cons show ?case by simp
qed

text \<open>C2: after a call of \<open>VerifyOTPAndAuthenticate\<close> that returned a token, a further call
  for the same phone number with the same code returns \<open>ErrInvalidOTP\<close>, whatever the clock
  says and whatever operations ran in between, as long as none of them requested a new
  code for that phone number: the successful call removed the stored OTP.\<close>

theorem verified_code_does_not_verify_again:
  "fst (VerifyOTPAndAuthenticate L jwtSecret env phoneNumber code r) = Inr token \<Longrightarrow>
   \<forall>op \<in> set ops. \<not> requests_code_for phoneNumber op \<Longrightarrow>
   fst (VerifyOTPAndAuthenticate L jwtSecret env' phoneNumber code
          (fold (apply_operation L jwtSecret) ops
             (snd (VerifyOTPAndAuthenticate L jwtSecret env phoneNumber code r)))) = Inl ErrInvalidOTP"
  by (simp add: Verify_absent Verify_token_deleted operations_keep_absent)

theorem verified_code_does_not_verify_again_witness:
  "returns_token (VerifyOTPAndAuthenticate test_Library ''secret'' verify_env_1 ''+15551234567'' ''482913'' repository_1)
   \<and> fst (VerifyOTPAndAuthenticate test_Library ''secret'' verify_env_1 ''+15551234567'' ''482913''
          (snd (VerifyOTPAndAuthenticate test_Library ''secret'' verify_env_1 ''+15551234567'' ''482913'' repository_1)))
       = Inl ErrInvalidOTP
   \<and> fst (VerifyOTPAndAuthenticate test_Library ''secret'' verify_env_1 ''+15551234567'' ''482913''
          (fold (apply_operation test_Library ''secret'')
             [OpSendOTP send_env_1 ''+15550000000'', OpVerify verify_env_1 ''+15551234567'' ''482913'']
             (snd (VerifyOTPAndAuthenticate test_Library ''secret'' verify_env_1 ''+15551234567'' ''482913'' repository_1))))
       = Inl ErrInvalidOTP"
proof -
  obtain token where t:
    "fst (VerifyOTPAndAuthenticate test_Library ''secret'' verify_env_1 ''+15551234567'' ''482913'' repository_1) = Inr token"
    using Verify_1 by (auto simp: returns_token_def split: sum.splits)
  from verified_code_does_not_verify_again [OF t, of "[]" verify_env_1]
    verified_code_does_not_verify_again [OF t,
      of "[OpSendOTP send_env_1 ''+15550000000'', OpVerify verify_env_1 ''+15551234567'' ''482913'']" verify_env_1]
    Verify_1
  show ?thesis by simp
qed

text \<open>C7, as stated, fails at the boundary: the stored OTP expires at minute 2, the call
  reads the clock at exactly minute 2, and it returns a token instead of \<open>ErrInvalidOTP\<close>.\<close>

theorem expiry_boundary_counterexample:
  "map_option OTP_ExpiresAt (otps (otpStore repository_1) ''+15551234567'')
     = Some (verify_now verify_env_boundary) \<and>
   returns_token (VerifyOTPAndAuthenticate test_Library ''secret'' verify_env_boundary
                    ''+15551234567'' ''482913'' repository_1)"
  by (simp add: eval_defs repository_1_otps repository_1_users verify_env_boundary_def
      verify_env_1_def test_Library_def)

text \<open>C7 (amended): a stored OTP whose expiry instant lies strictly before the clock
  reading behaves like an absent one: the call returns \<open>ErrInvalidOTP\<close> and leaves the
  repository as it was (the record stays in the store). At the boundary, when the clock
  reads exactly the expiry instant, a matching code is not rejected as invalid.\<close>

theorem expired_otp_like_absent:
  "(otps (otpStore r) phoneNumber = None \<or>
    (\<exists>otp. otps (otpStore r) phoneNumber = Some otp \<and> OTP_ExpiresAt otp < verify_now env)
    \<longrightarrow> VerifyOTPAndAuthenticate L jwtSecret env phoneNumber receivedOTP r = (Inl ErrInvalidOTP, r)) \<and>
   (\<forall>otp. otps (otpStore r) phoneNumber = Some otp \<and> OTP_OTPCode otp = receivedOTP
          \<and> verify_now env = OTP_ExpiresAt otp
    \<longrightarrow> fst (VerifyOTPAndAuthenticate L jwtSecret env phoneNumber receivedOTP r) \<noteq> Inl ErrInvalidOTP)"
  using Verify_absent Verify_expired Verify_passed(2) by (metis order_refl)

theorem expired_otp_like_absent_witness:
  "otps (otpStore repository_1) ''+15551234567'' \<noteq> None \<and>
   VerifyOTPAndAuthenticate test_Library ''secret'' verify_env_late ''+15551234567'' ''482913''
       repository_1
     = (Inl ErrInvalidOTP, repository_1) \<and>
   VerifyOTPAndAuthenticate test_Library ''secret'' verify_env_late ''+15551234567'' ''482913''
       main_repository
     = (Inl ErrInvalidOTP, main_repository) \<and>
   fst (VerifyOTPAndAuthenticate test_Library ''secret'' verify_env_boundary ''+15551234567''
          ''482913'' repository_1)
     \<noteq> Inl ErrInvalidOTP"
  using expired_otp_like_absent [of repository_1 "''+15551234567''" verify_env_late
          test_Library "''secret''" "''482913''"]
    expired_otp_like_absent [of main_repository "''+15551234567''" verify_env_late
          test_Library "''secret''" "''482913''"]
    expired_otp_like_absent [of repository_1 "''+15551234567''" verify_env_boundary
          test_Library "''secret''" "''482913''"]
  by (simp add: repository_1_otps verify_env_late_def verify_env_boundary_def verify_env_1_def
      main_repository_def NewInMemoryOTPStore_def Minute_def Second_def)

text \<open>C10: whenever the OTP check passes (the stored code matches and is not expired), the
  call first moves from the check to the deletion and from there to the user lookup with
  the OTP already removed; and whatever the call then returns, a token or an error from
  user creation or from signing, the repository it leaves holds no OTP for that phone
  number.\<close>

theorem otp_consumed_even_when_call_fails:
  "otps (otpStore r) phoneNumber = Some otp \<Longrightarrow> OTP_OTPCode otp = receivedOTP \<Longrightarrow>
   \<not> IsExpired (verify_now env) otp \<Longrightarrow>
   c = \<lparr>call_env = env, call_phoneNumber = phoneNumber, call_receivedOTP = receivedOTP\<rparr> \<Longrightarrow>
   verify_step L jwtSecret c AtGetOTP r = (AtDeleteOTP, r) \<and>
   fst (verify_step L jwtSecret c AtDeleteOTP r) = AtGetUser \<and>
   otps (otpStore (snd (verify_step L jwtSecret c AtDeleteOTP r))) phoneNumber = None \<and>
   otps (otpStore (snd (VerifyOTPAndAuthenticate L jwtSecret env phoneNumber receivedOTP r)))
     phoneNumber = None"
  using Verify_passed(1) [of r phoneNumber otp receivedOTP env L jwtSecret]
  by (simp add: IsExpired_def After_def not_less GetOTP_present DeleteOTP_otps)

theorem otp_consumed_even_when_call_fails_witness:
  "fst (VerifyOTPAndAuthenticate failing_Library ''secret'' verify_env_1 ''+15551234567'' ''482913''
          repository_1) = Inl ErrJWTGeneration \<and>
   otps (otpStore repository_1) ''+15551234567'' \<noteq> None \<and>
   otps (otpStore (snd (VerifyOTPAndAuthenticate failing_Library ''secret'' verify_env_1
                          ''+15551234567'' ''482913'' repository_1)))
     ''+15551234567'' = None"
proof -
  have 1: "fst (VerifyOTPAndAuthenticate failing_Library ''secret'' verify_env_1 ''+15551234567''
                  ''482913'' repository_1) = Inl ErrJWTGeneration"
    by (simp add: eval_defs repository_1_otps repository_1_users verify_env_1_def
        test_Library_def failing_Library_def)
  have 2: "otps (otpStore repository_1) ''+15551234567'' =
      Some \<lparr>OTP_ID = 1, OTP_PhoneNumber = ''+15551234567'', OTP_OTPCode = ''482913'',
            OTP_CreatedAt = 0, OTP_ExpiresAt = 2 * Minute\<rparr>"
    by (simp add: repository_1_otps)
  from otp_consumed_even_when_call_fails
         [OF 2 _ _ refl, of "''482913''" verify_env_1 failing_Library "''secret''"] 1 2
  show ?thesis by (simp add: IsExpired_def After_def verify_env_1_def Minute_def Second_def)
qed

section \<open>Verification, two calls at once\<close>

text \<open>A call that runs its five steps without interruption is the sequential function.\<close>

lemma run_schedule_sequential:
  "run_schedule L jwtSecret c1 c2 [True, True, True, True, True] (AtGetOTP, pc2, r) =
     (Returned (fst (VerifyOTPAndAuthenticate L jwtSecret (call_env c1) (call_phoneNumber c1) (call_receivedOTP c1) r)),
      pc2,
      snd (VerifyOTPAndAuthenticate L jwtSecret (call_env c1) (call_phoneNumber c1) (call_receivedOTP c1) r))"
  by (simp add: VerifyOTPAndAuthenticate_def Let_def split: sum.splits prod.splits)

lemmas step_eval = repository_1_eq call_A_def call_B_def verify_env_1_def test_Library_def
  GetOTP_def InMemoryOTPStore_GetOTP_def IsExpired_def After_def
  Let_def GetUserByPhoneNumber_def InMemoryUserStore_GetUserByPhoneNumber_def
  DeleteOTP_def InMemoryOTPStore_DeleteOTP_def
  CreateUser_def InMemoryUserStore_CreateUser_def generateJWT_def SignedString_def NewWithClaims_def
  returned_token_def Minute_def Second_def

text \<open>C1 (the code departs from the claim): two calls for the same phone number submit the
  stored, unexpired code. When the second call reads the OTP after the first has read it
  and before the first has deleted it, both calls return a token. Run one after the other,
  the second call returns \<open>ErrInvalidOTP\<close>.\<close>

theorem concurrent_verify_both_return_token:
  "returned_token (fst (run_schedule test_Library ''secret'' call_A call_B
        [True, False, True, True, True, True, False, False, False, False]
        (AtGetOTP, AtGetOTP, repository_1))) \<and>
   returned_token (fst (snd (run_schedule test_Library ''secret'' call_A call_B
        [True, False, True, True, True, True, False, False, False, False]
        (AtGetOTP, AtGetOTP, repository_1)))) \<and>
   returned_token (fst (run_schedule test_Library ''secret'' call_A call_B
        [True, True, True, True, True, False, False, False, False, False]
        (AtGetOTP, AtGetOTP, repository_1))) \<and>
   fst (snd (run_schedule test_Library ''secret'' call_A call_B
        [True, True, True, True, True, False, False, False, False, False]
        (AtGetOTP, AtGetOTP, repository_1))) = Returned (Inl ErrInvalidOTP)"
  by (simp add: step_eval)

text \<open>C6, as stated, fails: both calls have found no user; the first creates the user; the
  second call's lookup had reported "not found" (it is about to create), its creation
  fails with \<open>ErrAlreadyExists\<close>, and the call returns \<open>ErrUserRegistration\<close> instead of
  reading the account again.\<close>

theorem create_race_counterexample:
  "fst (snd (run_schedule test_Library ''secret'' call_A call_B
        [True, False, True, False, True, False, True]
        (AtGetOTP, AtGetOTP, repository_1))) = AtCreateUser \<and>
   fst (CreateUser 8 Minute Minute
          \<lparr>User_ID = 0, User_PhoneNumber = ''+15551234567'', User_CreatedAt = zeroTime, User_UpdatedAt = zeroTime\<rparr>
          (snd (snd (run_schedule test_Library ''secret'' call_A call_B
             [True, False, True, False, True, False, True]
             (AtGetOTP, AtGetOTP, repository_1))))) = Inl ErrAlreadyExists \<and>
   fst (snd (run_schedule test_Library ''secret'' call_A call_B
        [True, False, True, False, True, False, True, False]
        (AtGetOTP, AtGetOTP, repository_1))) = Returned (Inl ErrUserRegistration)"
  by (simp add: step_eval)

text \<open>C6 (amended): when the account lookup has reported "not found" and the user store
  already holds the phone number at the time of the creation, \<open>CreateUser\<close> fails with
  \<open>ErrAlreadyExists\<close> and the call returns \<open>ErrUserRegistration\<close> at once: it does not read
  the account again, mints no token and leaves the repository as it is.\<close>

theorem create_failure_is_returned:
  "phoneIndex (userStore r) (call_phoneNumber c) \<noteq> None \<Longrightarrow>
   fst (CreateUser (verify_userID (call_env c)) (verify_createdNow (call_env c)) (verify_updatedNow (call_env c))
          \<lparr>User_ID = 0, User_PhoneNumber = call_phoneNumber c, User_CreatedAt = zeroTime, User_UpdatedAt = zeroTime\<rparr> r)
     = Inl ErrAlreadyExists \<and>
   verify_step L jwtSecret c AtCreateUser r = (Returned (Inl ErrUserRegistration), r)"
  by (auto simp: CreateUser_def InMemoryUserStore_CreateUser_def)

theorem create_failure_is_returned_witness:
  "phoneIndex (userStore (snd (snd (run_schedule test_Library ''secret'' call_A call_B
        [True, False, True, False, True, False, True] (AtGetOTP, AtGetOTP, repository_1)))))
     ''+15551234567'' \<noteq> None \<and>
   fst (verify_step test_Library ''secret'' call_B AtCreateUser
          (snd (snd (run_schedule test_Library ''secret'' call_A call_B
             [True, False, True, False, True, False, True] (AtGetOTP, AtGetOTP, repository_1)))))
     = Returned (Inl ErrUserRegistration)"
proof -
  have 1: "phoneIndex (userStore (snd (snd (run_schedule test_Library ''secret'' call_A call_B
        [True, False, True, False, True, False, True] (AtGetOTP, AtGetOTP, repository_1)))))
     (call_phoneNumber call_B) \<noteq> None"
    by (simp add: step_eval)
  from create_failure_is_returned [OF 1, of test_Library "''secret''"] 1
  show ?thesis by (simp add: call_B_def)
qed

section \<open>The rate limiter\<close>

lemma Sub_mono: "t - u \<le> t' - u' \<Longrightarrow> Sub t u \<le> Sub t' u'"
  by (simp add: Sub_def Let_def minDuration_def maxDuration_def)

lemma Sub_self: "Sub t t = 0"
  by (simp add: Sub_def Let_def minDuration_def maxDuration_def)

lemma SendOTP_result:
  "fst (SendOTP env phoneNumber r) =
     (if fst (Allow (send_allowNow env) phoneNumber (rateLimiter r)) then None
      else Some ErrRateLimitExceeded)"
  by (simp add: SendOTP_def AllowOTPRate_def StoreOTP_def InMemoryOTPStore_StoreOTP_def Let_def
      split: prod.splits)

lemma SendOTP_rateLimiter:
  "rateLimiter (snd (SendOTP env phoneNumber r)) =
     snd (Allow (send_allowNow env) phoneNumber (rateLimiter r))"
  by (auto simp: SendOTP_def AllowOTPRate_def StoreOTP_def InMemoryOTPStore_StoreOTP_def Let_def
      split: prod.splits)

lemma Allow_decision:
  "fst (Allow now key l) =
     (int (length (filter (\<lambda>t. Sub now t \<le> timeWindow l) (slice_at (requests l) key))) < maxReq l)"
  by (auto simp: Allow_def Let_def)

lemma Allow_recorded:
  "slice_at (requests (snd (Allow now key l))) key =
     filter (\<lambda>t. Sub now t \<le> timeWindow l) (slice_at (requests l) key)
       @ (if fst (Allow now key l) then [now] else [])"
  by (simp add: Allow_def Let_def slice_at_def)

lemma Allow_params:
  "maxReq (snd (Allow now key l)) = maxReq l" "timeWindow (snd (Allow now key l)) = timeWindow l"
  by (simp_all add: Allow_def Let_def)

lemma Allow_other: "key' \<noteq> key \<Longrightarrow> requests (snd (Allow now key l)) key' = requests l key'"
  by (simp add: Allow_def Let_def)

text \<open>A run of calls at instants that are all within the window of each other, on a window
  that has room for them: all are admitted and recorded.\<close>

lemma send_all_admitted:
  assumes "maxReq (rateLimiter r) = int N" "timeWindow (rateLimiter r) = W"
    and "slice_at (requests (rateLimiter r)) phoneNumber = pre"
    and "length pre + length envs \<le> N"
    and "\<forall>t \<in> set (map send_allowNow envs). \<forall>u \<in> set pre \<union> set (map send_allowNow envs). Sub t u \<le> W"
  shows "fst (send_all envs phoneNumber r) = replicate (length envs) None
       \<and> slice_at (requests (rateLimiter (snd (send_all envs phoneNumber r)))) phoneNumber
            = pre @ map send_allowNow envs
       \<and> maxReq (rateLimiter (snd (send_all envs phoneNumber r))) = int N
       \<and> timeWindow (rateLimiter (snd (send_all envs phoneNumber r))) = W"
  using assms
proof (induction envs arbitrary: r pre)
  case Nil
  then show ?case by simp
next
  case (Cons env envs)
  let ?r1 = "snd (SendOTP env phoneNumber r)"
  have keep: "filter (\<lambda>t. Sub (send_allowNow env) t \<le> W) pre = pre"
    using Cons.prems(5) by (auto simp: filter_id_conv)
  have adm: "fst (Allow (send_allowNow env) phoneNumber (rateLimiter r))"
    using Cons.prems(1-4) keep by (simp add: Allow_decision)
  have res1: "fst (SendOTP env phoneNumber r) = None"
    using adm by (simp add: SendOTP_result)
  have rec1: "slice_at (requests (rateLimiter ?r1)) phoneNumber = pre @ [send_allowNow env]"
    using adm keep Cons.prems(2,3) by (simp add: SendOTP_rateLimiter Allow_recorded)
  have par1: "maxReq (rateLimiter ?r1) = int N" "timeWindow (rateLimiter ?r1) = W"
    using Cons.prems(1,2) by (simp_all add: SendOTP_rateLimiter Allow_params)
  have len1: "length (pre @ [send_allowNow env]) + length envs \<le> N"
    using Cons.prems(4) by simp
  have win1: "\<forall>t \<in> set (map send_allowNow envs).
      \<forall>u \<in> set (pre @ [send_allowNow env]) \<union> set (map send_allowNow envs). Sub t u \<le> W"
    using Cons.prems(5) by auto
  from Cons.IH [OF par1 rec1 len1 win1] res1
  show ?case by (simp add: case_prod_unfold Let_def)
qed

lemma send_all_append:
  "send_all (xs @ ys) phoneNumber r =
     (fst (send_all xs phoneNumber r) @ fst (send_all ys phoneNumber (snd (send_all xs phoneNumber r))),
      snd (send_all ys phoneNumber (snd (send_all xs phoneNumber r))))"
  by (induction xs arbitrary: r) (simp_all add: case_prod_unfold Let_def)

lemma send_all_single:
  "send_all [env] phoneNumber r = ([fst (SendOTP env phoneNumber r)], snd (SendOTP env phoneNumber r))"
  by (simp add: case_prod_unfold Let_def)

lemma sorted_le_last: "sorted ts \<Longrightarrow> (t::int) \<in> set ts \<Longrightarrow> t \<le> last ts"
  by (induction ts) auto

lemma sorted_hd_le: "sorted ts \<Longrightarrow> (u::int) \<in> set ts \<Longrightarrow> hd ts \<le> u"
  by (cases ts) auto

lemma sorted_within:
  assumes "sorted ts" "ts \<noteq> []" "Sub (last ts) (hd ts) \<le> W" "t \<in> set ts" "u \<in> set ts"
  shows "Sub t u \<le> W"
proof -
  have "hd ts \<le> u"
    using assms(1,5) by (rule sorted_hd_le)
  moreover have "t \<le> last ts"
    using assms(1,4) by (rule sorted_le_last)
  ultimately have "t - u \<le> last ts - hd ts" by simp
  then have "Sub t u \<le> Sub (last ts) (hd ts)" by (rule Sub_mono)
  with assms(3) show ?thesis by simp
qed

lemma SendOTP_rejected:
  assumes "maxReq (rateLimiter r) = int N" "timeWindow (rateLimiter r) = W"
    and "filter (\<lambda>t. Sub (send_allowNow env) t \<le> W) (slice_at (requests (rateLimiter r)) phoneNumber) = keep"
    and "N \<le> length keep"
  shows "fst (SendOTP env phoneNumber r) = Some ErrRateLimitExceeded"
    and "slice_at (requests (rateLimiter (snd (SendOTP env phoneNumber r)))) phoneNumber = keep"
    and "maxReq (rateLimiter (snd (SendOTP env phoneNumber r))) = int N"
    and "timeWindow (rateLimiter (snd (SendOTP env phoneNumber r))) = W"
  using assms
  by (simp_all add: SendOTP_result SendOTP_rateLimiter Allow_decision Allow_recorded Allow_params)

lemma SendOTP_admitted:
  assumes "maxReq (rateLimiter r) = int N" "timeWindow (rateLimiter r) = W"
    and "filter (\<lambda>t. Sub (send_allowNow env) t \<le> W) (slice_at (requests (rateLimiter r)) phoneNumber) = keep"
    and "length keep < N"
  shows "fst (SendOTP env phoneNumber r) = None"
    and "slice_at (requests (rateLimiter (snd (SendOTP env phoneNumber r)))) phoneNumber
           = keep @ [send_allowNow env]"
    and "maxReq (rateLimiter (snd (SendOTP env phoneNumber r))) = int N"
    and "timeWindow (rateLimiter (snd (SendOTP env phoneNumber r))) = W"
  using assms
  by (simp_all add: SendOTP_result SendOTP_rateLimiter Allow_decision Allow_recorded Allow_params)

lemma burst_rejected:
  fixes N :: nat
  assumes N: "maxReq (rateLimiter r) = int N" and W: "timeWindow (rateLimiter r) = W"
    and stale: "\<forall>u \<in> set (slice_at (requests (rateLimiter r)) phoneNumber).
                  W < Sub (send_allowNow (hd envs)) u"
    and len: "length envs = Suc N"
    and sorted: "sorted (map send_allowNow envs)"
    and within: "Sub (send_allowNow (last envs)) (send_allowNow (hd envs)) \<le> W"
  shows "fst (send_all envs phoneNumber r) = replicate N None @ [Some ErrRateLimitExceeded]
       \<and> slice_at (requests (rateLimiter (snd (send_all envs phoneNumber r)))) phoneNumber
           = map send_allowNow (butlast envs)
       \<and> maxReq (rateLimiter (snd (send_all envs phoneNumber r))) = int N
       \<and> timeWindow (rateLimiter (snd (send_all envs phoneNumber r))) = W"
proof -
  let ?ts = "map send_allowNow envs"
  from len have ne: "envs \<noteq> []" by auto
  have hdl: "hd ?ts = send_allowNow (hd envs)" "last ?ts = send_allowNow (last envs)"
    using ne by (simp_all add: hd_map last_map)
  have pair: "Sub t u \<le> W" if "t \<in> set ?ts" "u \<in> set ?ts" for t u
    using sorted_within [OF sorted _ _ that] ne within hdl by simp
  obtain e1 rest where envs: "envs = e1 # rest" using ne by (cases envs) auto
  have gone: "filter (\<lambda>t. Sub (send_allowNow e1) t \<le> W)
                (slice_at (requests (rateLimiter r)) phoneNumber) = []"
    using stale envs by (auto simp: filter_empty_conv)
  show ?thesis
  proof (cases N)
    case 0
    with len envs have rest: "rest = []" by simp
    from SendOTP_rejected [OF N W gone] 0
    show ?thesis by (simp add: envs rest case_prod_unfold)
  next
    case (Suc M)
    let ?r1 = "snd (SendOTP e1 phoneNumber r)"
    have first: "fst (SendOTP e1 phoneNumber r) = None"
      "slice_at (requests (rateLimiter ?r1)) phoneNumber = [send_allowNow e1]"
      "maxReq (rateLimiter ?r1) = int N" "timeWindow (rateLimiter ?r1) = W"
      using SendOTP_admitted [OF N W gone] Suc by simp_all
    from len envs Suc have rne: "rest \<noteq> []" by auto
    let ?mid = "butlast rest" and ?eL = "last rest"
    have rest: "rest = ?mid @ [?eL]" using rne by simp
    have lmid: "length [send_allowNow e1] + length ?mid \<le> N"
      using len envs Suc by simp
    have wmid: "\<forall>t \<in> set (map send_allowNow ?mid).
        \<forall>u \<in> set [send_allowNow e1] \<union> set (map send_allowNow ?mid). Sub t u \<le> W"
    proof (intro ballI)
      fix t u assume "t \<in> set (map send_allowNow ?mid)"
        and "u \<in> set [send_allowNow e1] \<union> set (map send_allowNow ?mid)"
      then have "t \<in> set ?ts" "u \<in> set ?ts"
        using envs by (auto dest: in_set_butlastD)
      then show "Sub t u \<le> W" by (rule pair)
    qed
    let ?r2 = "snd (send_all ?mid phoneNumber ?r1)"
    from send_all_admitted [OF first(3,4,2) lmid wmid]
    have mid: "fst (send_all ?mid phoneNumber ?r1) = replicate (length ?mid) None"
      "slice_at (requests (rateLimiter ?r2)) phoneNumber = send_allowNow e1 # map send_allowNow ?mid"
      "maxReq (rateLimiter ?r2) = int N" "timeWindow (rateLimiter ?r2) = W"
      by simp_all
    have keepL: "filter (\<lambda>t. Sub (send_allowNow ?eL) t \<le> W)
        (slice_at (requests (rateLimiter ?r2)) phoneNumber) = send_allowNow e1 # map send_allowNow ?mid"
    proof -
      have "send_allowNow ?eL \<in> set ?ts" using envs rne by simp
      moreover have "set (send_allowNow e1 # map send_allowNow ?mid) \<subseteq> set ?ts"
        using envs by (auto dest: in_set_butlastD)
      ultimately have "\<forall>u \<in> set (send_allowNow e1 # map send_allowNow ?mid). Sub (send_allowNow ?eL) u \<le> W"
        using pair by blast
      then show ?thesis unfolding mid(2) by (simp only: filter_id_conv [THEN iffD2])
    qed
    have lenL: "N \<le> length (send_allowNow e1 # map send_allowNow ?mid)"
      using len envs Suc by simp
    note lastc = SendOTP_rejected [OF mid(3,4) keepL lenL]
    have bl: "butlast envs = e1 # ?mid" using envs rne by simp
    have lm: "length ?mid = M" using len envs Suc by simp
    have "send_all envs phoneNumber r =
        (None # replicate M None @ [Some ErrRateLimitExceeded], snd (SendOTP ?eL phoneNumber ?r2))"
      apply (subst envs)
      apply (subst rest)
      apply (simp only: send_all.simps send_all_append send_all_single case_prod_unfold Let_def
          first(1) mid(1) lastc(1) lm fst_conv snd_conv)
      done
    then show ?thesis
      using lastc(2,3,4) bl Suc by (simp add: replicate_append_same)
  qed
qed

lemma DB_Allow_decision:
  "fst (DB_Allow now key d) =
     (length (filter (\<lambda>t. Sub now t \<le> 10 * Minute) (slice_at (db_requests d) key)) < 3)"
  by (auto simp: DB_Allow_def Let_def)

lemma DB_Allow_recorded:
  "slice_at (db_requests (snd (DB_Allow now key d))) key =
     (if fst (DB_Allow now key d)
      then filter (\<lambda>t. Sub now t \<le> 10 * Minute) (slice_at (db_requests d) key) @ [now]
      else slice_at (db_requests d) key)"
  by (simp add: DB_Allow_def Let_def slice_at_def)

lemma recovery:
  fixes N :: nat
  assumes "maxReq (rateLimiter r) = int N" "timeWindow (rateLimiter r) = W"
    and "slice_at (requests (rateLimiter r)) phoneNumber = t1 # ts" "length (t1 # ts) \<le> N"
    and "W < Sub (send_allowNow later) t1"
  shows "fst (SendOTP later phoneNumber r) = None"
proof -
  have "length (filter (\<lambda>t. Sub (send_allowNow later) t \<le> W) (t1 # ts)) \<le> length ts"
    using assms(5) by simp
  with assms(4) have "length (filter (\<lambda>t. Sub (send_allowNow later) t \<le> W) (t1 # ts)) < N" by simp
  with SendOTP_admitted(1) [OF assms(1,2) refl, of later phoneNumber] assms(3)
  show ?thesis by simp
qed

text \<open>C3: \<open>Allow\<close> keeps the recorded instants that are not older than the window; it
  admits the call exactly when fewer than the maximum survive, and it records the current
  instant exactly when it admits (both limiters; the one of the database package with
  the constants 3 and 10 minutes). Consequently, when the limit is \<open>N\<close>, no recorded
  instant of the phone number is within the window at the first call, and \<open>N + 1\<close> calls
  of \<open>SendOTP\<close> come at non-decreasing instants with the last within the window of the
  first, then the first \<open>N\<close> calls succeed and the last one fails with
  \<open>ErrRateLimitExceeded\<close>; and for \<open>N > 0\<close> a later call succeeds again as soon as the
  first (oldest) recorded instant is older than the window.\<close>

theorem rate_limiter_admission:
  fixes N :: nat
  shows
  "fst (Allow now key l) =
     (int (length (filter (\<lambda>t. Sub now t \<le> timeWindow l) (slice_at (requests l) key))) < maxReq l) \<and>
   slice_at (requests (snd (Allow now key l))) key =
     filter (\<lambda>t. Sub now t \<le> timeWindow l) (slice_at (requests l) key)
       @ (if fst (Allow now key l) then [now] else []) \<and>
   fst (DB_Allow now key d) =
     (length (filter (\<lambda>t. Sub now t \<le> 10 * Minute) (slice_at (db_requests d) key)) < 3) \<and>
   slice_at (db_requests (snd (DB_Allow now key d))) key =
     (if fst (DB_Allow now key d)
      then filter (\<lambda>t. Sub now t \<le> 10 * Minute) (slice_at (db_requests d) key) @ [now]
      else slice_at (db_requests d) key) \<and>
   (maxReq (rateLimiter r) = int N \<and> timeWindow (rateLimiter r) = W \<and>
    (\<forall>u \<in> set (slice_at (requests (rateLimiter r)) phoneNumber). W < Sub (send_allowNow (hd envs)) u) \<and>
    length envs = Suc N \<and> sorted (map send_allowNow envs) \<and>
    Sub (send_allowNow (last envs)) (send_allowNow (hd envs)) \<le> W
    \<longrightarrow>
    fst (send_all envs phoneNumber r) = replicate N None @ [Some ErrRateLimitExceeded] \<and>
    (0 < N \<and> W < Sub (send_allowNow later) (send_allowNow (hd envs))
     \<longrightarrow> fst (SendOTP later phoneNumber (snd (send_all envs phoneNumber r))) = None))"
proof (intro conjI impI)
  show "fst (Allow now key l) =
     (int (length (filter (\<lambda>t. Sub now t \<le> timeWindow l) (slice_at (requests l) key))) < maxReq l)"
    by (rule Allow_decision)
  show "slice_at (requests (snd (Allow now key l))) key =
     filter (\<lambda>t. Sub now t \<le> timeWindow l) (slice_at (requests l) key)
       @ (if fst (Allow now key l) then [now] else [])"
    by (rule Allow_recorded)
  show "fst (DB_Allow now key d) =
     (length (filter (\<lambda>t. Sub now t \<le> 10 * Minute) (slice_at (db_requests d) key)) < 3)"
    by (rule DB_Allow_decision)
  show "slice_at (db_requests (snd (DB_Allow now key d))) key =
     (if fst (DB_Allow now key d)
      then filter (\<lambda>t. Sub now t \<le> 10 * Minute) (slice_at (db_requests d) key) @ [now]
      else slice_at (db_requests d) key)"
    by (rule DB_Allow_recorded)
next
  assume h: "maxReq (rateLimiter r) = int N \<and> timeWindow (rateLimiter r) = W \<and>
    (\<forall>u \<in> set (slice_at (requests (rateLimiter r)) phoneNumber). W < Sub (send_allowNow (hd envs)) u) \<and>
    length envs = Suc N \<and> sorted (map send_allowNow envs) \<and>
    Sub (send_allowNow (last envs)) (send_allowNow (hd envs)) \<le> W"
  from h burst_rejected [of r N W phoneNumber envs]
  show "fst (send_all envs phoneNumber r) = replicate N None @ [Some ErrRateLimitExceeded]"
    by blast
next
  assume h: "maxReq (rateLimiter r) = int N \<and> timeWindow (rateLimiter r) = W \<and>
    (\<forall>u \<in> set (slice_at (requests (rateLimiter r)) phoneNumber). W < Sub (send_allowNow (hd envs)) u) \<and>
    length envs = Suc N \<and> sorted (map send_allowNow envs) \<and>
    Sub (send_allowNow (last envs)) (send_allowNow (hd envs)) \<le> W"
    and l: "0 < N \<and> W < Sub (send_allowNow later) (send_allowNow (hd envs))"
  let ?r' = "snd (send_all envs phoneNumber r)"
  from h burst_rejected [of r N W phoneNumber envs]
  have after: "slice_at (requests (rateLimiter ?r')) phoneNumber = map send_allowNow (butlast envs)"
    "maxReq (rateLimiter ?r') = int N" "timeWindow (rateLimiter ?r') = W"
    by blast+
  from h obtain e1 rest where envs: "envs = e1 # rest" by (cases envs) auto
  with h l have rne: "rest \<noteq> []" by auto
  have sl: "slice_at (requests (rateLimiter ?r')) phoneNumber
      = send_allowNow e1 # map send_allowNow (butlast rest)"
    using after(1) envs rne by simp
  have ln: "length (send_allowNow e1 # map send_allowNow (butlast rest)) \<le> N"
    using h envs l by simp
  from recovery [OF after(2,3) sl ln] l envs
  show "fst (SendOTP later phoneNumber ?r') = None" by simp
qed

theorem rate_limiter_admission_witness:
  "fst (send_all [send_env_at 0, send_env_at Minute, send_env_at (2 * Minute), send_env_at (2 * Minute)]
         ''+15551234567'' main_repository)
     = [None, None, None, Some ErrRateLimitExceeded] \<and>
   fst (SendOTP (send_env_at (2 * Minute + 1)) ''+15551234567''
         (snd (send_all [send_env_at 0, send_env_at Minute, send_env_at (2 * Minute), send_env_at (2 * Minute)]
                ''+15551234567'' main_repository))) = None"
  using rate_limiter_admission [of 0 "''x''" "NewInMemoryRateLimiter 3 (2 * Minute)" "\<lparr>db_requests = Map.empty\<rparr>"
      main_repository 3 "2 * Minute" "''+15551234567''"
      "[send_env_at 0, send_env_at Minute, send_env_at (2 * Minute), send_env_at (2 * Minute)]"
      "send_env_at (2 * Minute + 1)"]
  by (simp add: main_repository_def NewInMemoryRateLimiter_def slice_at_def send_env_at_def
      Sub_def Minute_def Second_def minDuration_def maxDuration_def replicate_numeral)

section \<open>The wired /otp/send path\<close>

lemma post_otp_send_status:
  "fst (post_otp_send now env (Some phoneNumber) r) =
     (if \<not> fst (Allow now phoneNumber (rateLimiter r)) then StatusTooManyRequests
      else if fst (Allow (send_allowNow env) phoneNumber (snd (Allow now phoneNumber (rateLimiter r))))
           then StatusOK else StatusTooManyRequests)"
  by (simp add: post_otp_send_def OTPRateLimiter_def Handler_SendOTP_def case_prod_unfold Let_def
      SendOTP_result split: option.splits)

lemma post_otp_send_rateLimiter:
  "rateLimiter (snd (post_otp_send now env (Some phoneNumber) r)) =
     (if fst (Allow now phoneNumber (rateLimiter r))
      then snd (Allow (send_allowNow env) phoneNumber (snd (Allow now phoneNumber (rateLimiter r))))
      else snd (Allow now phoneNumber (rateLimiter r)))"
  by (simp add: post_otp_send_def OTPRateLimiter_def Handler_SendOTP_def case_prod_unfold Let_def
      SendOTP_rateLimiter split: option.splits)

lemma Sub_le_of_between:
  assumes "a \<le> b" "b \<le> c" "c \<le> d" "Sub d a \<le> W"
  shows "Sub b a \<le> W" "Sub c a \<le> W" "Sub c b \<le> W" "Sub d b \<le> W" "Sub d c \<le> W"
    "Sub b b \<le> W" "Sub c c \<le> W"
proof -
  have m: "Sub x y \<le> W" if "x - y \<le> d - a" for x y
    using Sub_mono [OF that] assms(4) by simp
  show "Sub b a \<le> W" "Sub c a \<le> W" "Sub c b \<le> W" "Sub d b \<le> W" "Sub d c \<le> W"
    "Sub b b \<le> W" "Sub c c \<le> W"
    using assms(1-3) by (auto intro!: m)
qed

lemma two_requests_within_window:
  assumes p0: "maxReq (rateLimiter r) = 3" "timeWindow (rateLimiter r) = 2 * Minute"
    and stale: "\<forall>u \<in> set (slice_at (requests (rateLimiter r)) phoneNumber). 2 * Minute < Sub t1 u"
    and ord: "t1 \<le> send_allowNow env1" "send_allowNow env1 \<le> t2" "t2 \<le> send_allowNow env2"
    and within: "Sub (send_allowNow env2) t1 \<le> 2 * Minute"
  shows "fst (post_otp_send t1 env1 (Some phoneNumber) r) = StatusOK"
    and "slice_at (requests (rateLimiter (snd (post_otp_send t1 env1 (Some phoneNumber) r)))) phoneNumber
           = [t1, send_allowNow env1]"
    and "fst (Allow t2 phoneNumber (rateLimiter (snd (post_otp_send t1 env1 (Some phoneNumber) r))))"
    and "fst (SendOTP env2 phoneNumber
           ((snd (post_otp_send t1 env1 (Some phoneNumber) r))
              \<lparr>rateLimiter := snd (Allow t2 phoneNumber
                 (rateLimiter (snd (post_otp_send t1 env1 (Some phoneNumber) r))))\<rparr>))
           = Some ErrRateLimitExceeded"
    and "fst (post_otp_send t2 env2 (Some phoneNumber) (snd (post_otp_send t1 env1 (Some phoneNumber) r)))
           = StatusTooManyRequests"
    and "slice_at (requests (rateLimiter
           (snd (post_otp_send t2 env2 (Some phoneNumber)
              (snd (post_otp_send t1 env1 (Some phoneNumber) r)))))) phoneNumber
           = [t1, send_allowNow env1, t2]"
proof -
  let ?a1 = "send_allowNow env1" and ?a2 = "send_allowNow env2"
  let ?l0 = "rateLimiter r"
  let ?l1 = "snd (Allow t1 phoneNumber ?l0)"
  let ?l2 = "snd (Allow ?a1 phoneNumber ?l1)"
  let ?l3 = "snd (Allow t2 phoneNumber ?l2)"
  let ?l4 = "snd (Allow ?a2 phoneNumber ?l3)"
  from stale have gone: "filter (\<lambda>t. Sub t1 t \<le> 2 * Minute) (slice_at (requests ?l0) phoneNumber) = []"
    by (auto simp: filter_empty_conv)
  have win: "Sub ?a1 t1 \<le> 2 * Minute" "Sub t2 t1 \<le> 2 * Minute" "Sub t2 ?a1 \<le> 2 * Minute"
    "Sub ?a2 ?a1 \<le> 2 * Minute" "Sub ?a2 t2 \<le> 2 * Minute" "Sub ?a2 t1 \<le> 2 * Minute"
    using Sub_le_of_between [OF ord within] within by simp_all
  have a1: "fst (Allow t1 phoneNumber ?l0)" "slice_at (requests ?l1) phoneNumber = [t1]"
    "maxReq ?l1 = 3" "timeWindow ?l1 = 2 * Minute"
    using gone p0 by (simp_all add: Allow_decision Allow_recorded Allow_params)
  have a2: "fst (Allow ?a1 phoneNumber ?l1)" "slice_at (requests ?l2) phoneNumber = [t1, ?a1]"
    "maxReq ?l2 = 3" "timeWindow ?l2 = 2 * Minute"
    using a1 win by (simp_all add: Allow_decision Allow_recorded Allow_params)
  have a3: "fst (Allow t2 phoneNumber ?l2)" "slice_at (requests ?l3) phoneNumber = [t1, ?a1, t2]"
    "maxReq ?l3 = 3" "timeWindow ?l3 = 2 * Minute"
    using a2 win by (simp_all add: Allow_decision Allow_recorded Allow_params)
  have a4: "\<not> fst (Allow ?a2 phoneNumber ?l3)" "slice_at (requests ?l4) phoneNumber = [t1, ?a1, t2]"
    using a3 win by (simp_all add: Allow_decision Allow_recorded Allow_params)
  have r1: "rateLimiter (snd (post_otp_send t1 env1 (Some phoneNumber) r)) = ?l2"
    using a1(1) by (simp add: post_otp_send_rateLimiter)
  let ?r1 = "snd (post_otp_send t1 env1 (Some phoneNumber) r)"
  show "fst (post_otp_send t1 env1 (Some phoneNumber) r) = StatusOK"
    using a1(1) a2(1) by (simp add: post_otp_send_status)
  show "slice_at (requests (rateLimiter ?r1)) phoneNumber = [t1, send_allowNow env1]"
    using a2(2) by (simp only: r1)
  show "fst (Allow t2 phoneNumber (rateLimiter ?r1))"
    using a3(1) by (simp only: r1)
  show "fst (SendOTP env2 phoneNumber (?r1\<lparr>rateLimiter := snd (Allow t2 phoneNumber (rateLimiter ?r1))\<rparr>))
           = Some ErrRateLimitExceeded"
    unfolding r1 SendOTP_result using a4(1) by simp
  show "fst (post_otp_send t2 env2 (Some phoneNumber) ?r1) = StatusTooManyRequests"
    unfolding post_otp_send_status [of t2 env2 phoneNumber ?r1] r1 using a3(1) a4(1) by simp
  show "slice_at (requests (rateLimiter (snd (post_otp_send t2 env2 (Some phoneNumber) ?r1)))) phoneNumber
           = [t1, send_allowNow env1, t2]"
    unfolding post_otp_send_rateLimiter [of t2 env2 phoneNumber ?r1] r1 using a3(1) a4(2) by simp
qed

lemma main_repository_limiter:
  "maxReq (rateLimiter main_repository) = 3"
  "timeWindow (rateLimiter main_repository) = 2 * Minute"
  "slice_at (requests (rateLimiter main_repository)) phoneNumber = []"
  by (simp_all add: main_repository_def NewInMemoryRateLimiter_def slice_at_def)

lemma Sub_small: "0 \<le> t - u \<Longrightarrow> t - u \<le> 2 * Minute \<Longrightarrow> Sub t u = t - u"
  by (simp add: Sub_def Let_def minDuration_def maxDuration_def Minute_def Second_def)

text \<open>C4, as stated, fails in one clause: not every request that reaches the service
  records two instants. On the freshly wired repository the first request leaves the
  instants 0 and 1 recorded; the second request, one minute later, passes the middleware,
  reaches \<open>SendOTP\<close>, is refused there, and leaves exactly one more instant recorded.\<close>

theorem second_request_counterexample:
  "fst (Allow Minute ''+15551234567''
          (rateLimiter (snd (post_otp_send 0 (send_env_at 1) (Some ''+15551234567'') main_repository)))) \<and>
   fst (SendOTP (send_env_at (Minute + 1)) ''+15551234567''
          ((snd (post_otp_send 0 (send_env_at 1) (Some ''+15551234567'') main_repository))
             \<lparr>rateLimiter := snd (Allow Minute ''+15551234567''
                (rateLimiter (snd (post_otp_send 0 (send_env_at 1) (Some ''+15551234567'') main_repository))))\<rparr>))
     = Some ErrRateLimitExceeded \<and>
   slice_at (requests (rateLimiter
       (snd (post_otp_send 0 (send_env_at 1) (Some ''+15551234567'') main_repository)))) ''+15551234567''
     = [0, 1] \<and>
   slice_at (requests (rateLimiter
       (snd (post_otp_send Minute (send_env_at (Minute + 1)) (Some ''+15551234567'')
          (snd (post_otp_send 0 (send_env_at 1) (Some ''+15551234567'') main_repository))))))
       ''+15551234567''
     = [0, 1, Minute]"
proof -
  have s: "send_allowNow (send_env_at t) = t" for t by (simp add: send_env_at_def)
  have o: "(0::int) \<le> send_allowNow (send_env_at 1)" "send_allowNow (send_env_at 1) \<le> Minute"
    "Minute \<le> send_allowNow (send_env_at (Minute + 1))"
    by (simp_all add: s Minute_def Second_def)
  have w: "Sub (send_allowNow (send_env_at (Minute + 1))) 0 \<le> 2 * Minute"
    by (simp add: s Sub_small Minute_def Second_def)
  have st: "\<forall>u \<in> set (slice_at (requests (rateLimiter main_repository)) ''+15551234567''). 2 * Minute < Sub 0 u"
    by (simp add: main_repository_limiter)
  note T = two_requests_within_window [OF main_repository_limiter(1,2) st o w]
  from T(2,3,4,6) show ?thesis by (simp add: s)
qed

text \<open>C4 (amended): on the route \<open>/otp/send\<close> the one rate limiter is asked twice for every
  request that passes the middleware, by the middleware and then by \<open>SendOTP\<close>, and the
  limiter left behind is the result of the two \<open>Allow\<close> calls; the request is answered 200
  exactly when both admit it, and then both record their instant. With the wired limit of
  3 per 2 minutes and no recent instant recorded for the phone number, the first request
  is answered 200 and leaves two instants recorded; the second request within the window
  passes the middleware (third instant), is then refused by \<open>SendOTP\<close> with
  \<open>ErrRateLimitExceeded\<close> and answered 429, having recorded one instant.\<close>

theorem send_route_consults_limiter_twice:
  "(fst (Allow now phoneNumber (rateLimiter r)) \<longrightarrow>
      rateLimiter (snd (post_otp_send now env (Some phoneNumber) r)) =
        snd (Allow (send_allowNow env) phoneNumber (snd (Allow now phoneNumber (rateLimiter r))))) \<and>
   (fst (post_otp_send now env (Some phoneNumber) r) = StatusOK) =
     (fst (Allow now phoneNumber (rateLimiter r)) \<and>
      fst (Allow (send_allowNow env) phoneNumber (snd (Allow now phoneNumber (rateLimiter r))))) \<and>
   (maxReq (rateLimiter r) = 3 \<and> timeWindow (rateLimiter r) = 2 * Minute \<and>
    (\<forall>u \<in> set (slice_at (requests (rateLimiter r)) phoneNumber). 2 * Minute < Sub t1 u) \<and>
    t1 \<le> send_allowNow env1 \<and> send_allowNow env1 \<le> t2 \<and> t2 \<le> send_allowNow env2 \<and>
    Sub (send_allowNow env2) t1 \<le> 2 * Minute
    \<longrightarrow>
    fst (post_otp_send t1 env1 (Some phoneNumber) r) = StatusOK \<and>
    slice_at (requests (rateLimiter (snd (post_otp_send t1 env1 (Some phoneNumber) r)))) phoneNumber
      = [t1, send_allowNow env1] \<and>
    fst (Allow t2 phoneNumber (rateLimiter (snd (post_otp_send t1 env1 (Some phoneNumber) r)))) \<and>
    fst (SendOTP env2 phoneNumber
           ((snd (post_otp_send t1 env1 (Some phoneNumber) r))
              \<lparr>rateLimiter := snd (Allow t2 phoneNumber
                 (rateLimiter (snd (post_otp_send t1 env1 (Some phoneNumber) r))))\<rparr>))
      = Some ErrRateLimitExceeded \<and>
    fst (post_otp_send t2 env2 (Some phoneNumber) (snd (post_otp_send t1 env1 (Some phoneNumber) r)))
      = StatusTooManyRequests \<and>
    slice_at (requests (rateLimiter
        (snd (post_otp_send t2 env2 (Some phoneNumber)
           (snd (post_otp_send t1 env1 (Some phoneNumber) r)))))) phoneNumber
      = [t1, send_allowNow env1, t2])"
proof (intro conjI impI)
  assume "fst (Allow now phoneNumber (rateLimiter r))"
  then show "rateLimiter (snd (post_otp_send now env (Some phoneNumber) r)) =
        snd (Allow (send_allowNow env) phoneNumber (snd (Allow now phoneNumber (rateLimiter r))))"
    by (simp add: post_otp_send_rateLimiter)
next
  show "(fst (post_otp_send now env (Some phoneNumber) r) = StatusOK) =
     (fst (Allow now phoneNumber (rateLimiter r)) \<and>
      fst (Allow (send_allowNow env) phoneNumber (snd (Allow now phoneNumber (rateLimiter r)))))"
    by (simp add: post_otp_send_status)
next
  assume h: "maxReq (rateLimiter r) = 3 \<and> timeWindow (rateLimiter r) = 2 * Minute \<and>
    (\<forall>u \<in> set (slice_at (requests (rateLimiter r)) phoneNumber). 2 * Minute < Sub t1 u) \<and>
    t1 \<le> send_allowNow env1 \<and> send_allowNow env1 \<le> t2 \<and> t2 \<le> send_allowNow env2 \<and>
    Sub (send_allowNow env2) t1 \<le> 2 * Minute"
  then have p: "maxReq (rateLimiter r) = 3" "timeWindow (rateLimiter r) = 2 * Minute"
    and st: "\<forall>u \<in> set (slice_at (requests (rateLimiter r)) phoneNumber). 2 * Minute < Sub t1 u"
    and od: "t1 \<le> send_allowNow env1" "send_allowNow env1 \<le> t2" "t2 \<le> send_allowNow env2"
    and wi: "Sub (send_allowNow env2) t1 \<le> 2 * Minute"
    by blast+
  note T = two_requests_within_window [OF p st od wi]
  show "fst (post_otp_send t1 env1 (Some phoneNumber) r) = StatusOK" by (rule T(1))
  show "slice_at (requests (rateLimiter (snd (post_otp_send t1 env1 (Some phoneNumber) r)))) phoneNumber
      = [t1, send_allowNow env1]" by (rule T(2))
  show "fst (Allow t2 phoneNumber (rateLimiter (snd (post_otp_send t1 env1 (Some phoneNumber) r))))"
    by (rule T(3))
  show "fst (SendOTP env2 phoneNumber
           ((snd (post_otp_send t1 env1 (Some phoneNumber) r))
              \<lparr>rateLimiter := snd (Allow t2 phoneNumber
                 (rateLimiter (snd (post_otp_send t1 env1 (Some phoneNumber) r))))\<rparr>))
      = Some ErrRateLimitExceeded" by (rule T(4))
  show "fst (post_otp_send t2 env2 (Some phoneNumber) (snd (post_otp_send t1 env1 (Some phoneNumber) r)))
      = StatusTooManyRequests" by (rule T(5))
  show "slice_at (requests (rateLimiter
        (snd (post_otp_send t2 env2 (Some phoneNumber)
           (snd (post_otp_send t1 env1 (Some phoneNumber) r)))))) phoneNumber
      = [t1, send_allowNow env1, t2]" by (rule T(6))
qed

theorem send_route_consults_limiter_twice_witness:
  "fst (post_otp_send 10 (send_env_at 11) (Some ''+15551234567'') main_repository) = StatusOK \<and>
   slice_at (requests (rateLimiter
       (snd (post_otp_send 10 (send_env_at 11) (Some ''+15551234567'') main_repository))))
     ''+15551234567'' = [10, 11] \<and>
   fst (post_otp_send 20 (send_env_at 21) (Some ''+15551234567'')
          (snd (post_otp_send 10 (send_env_at 11) (Some ''+15551234567'') main_repository)))
     = StatusTooManyRequests"
proof -
  have s: "send_allowNow (send_env_at t) = t" for t by (simp add: send_env_at_def)
  have h: "maxReq (rateLimiter main_repository) = 3 \<and>
    timeWindow (rateLimiter main_repository) = 2 * Minute \<and>
    (\<forall>u \<in> set (slice_at (requests (rateLimiter main_repository)) ''+15551234567'').
        2 * Minute < Sub 10 u) \<and>
    10 \<le> send_allowNow (send_env_at 11) \<and> send_allowNow (send_env_at 11) \<le> 20 \<and>
    20 \<le> send_allowNow (send_env_at 21) \<and>
    Sub (send_allowNow (send_env_at 21)) 10 \<le> 2 * Minute"
    by (simp add: main_repository_limiter s Sub_small Minute_def Second_def)
  from send_route_consults_limiter_twice [of 10 "''+15551234567''" main_repository "send_env_at 11"
      10 "send_env_at 11" 20 "send_env_at 21", THEN conjunct2, THEN conjunct2, THEN mp, OF h]
  show ?thesis by (simp add: s)
qed

section \<open>Tokens\<close>

lemma generateJWT_token:
  assumes "generateJWT L jwtSecret tIat tExp userID phoneNumber = Inr token"
  shows "Token_Method token = HS256"
    and "Token_Claims token =
           [''sub'' \<mapsto> ClaimString (uuid_String L userID),
            ''phone'' \<mapsto> ClaimString phoneNumber,
            ''iat'' \<mapsto> ClaimNumber (Unix tIat),
            ''exp'' \<mapsto> ClaimNumber (Unix (Add tExp (Hour * 24)))]"
    and "method_Sign L HS256 jwtSecret (HS256, Token_Claims token) = Inr (Token_Signature token)"
  using assms
  by (auto simp: generateJWT_def SignedString_def NewWithClaims_def Let_def split: sum.splits)

lemma minted_token_check:
  assumes gen: "generateJWT L jwtSecret tIat tExp userID phoneNumber = Inr token"
    and rt: "uuid_Parse L (uuid_String L userID) = Some userID"
  shows "AuthMiddleware L jwtSecret now token =
     (if Before now (Unix (Add tExp (Hour * 24)) * Second)
      then Next \<lparr>User_ID = userID, User_PhoneNumber = phoneNumber,
                 User_CreatedAt = zeroTime, User_UpdatedAt = zeroTime\<rparr>
      else AbortUnauthorized ''Invalid token'')"
  using generateJWT_token [OF gen] rt
  by (simp add: AuthMiddleware_def Parse_def validate_claims_def is_SigningMethodHMAC_def)

lemma Unix_floor: "Unix t * Second \<le> t"
  by (simp add: Unix_def Second_def)

lemma non_HMAC_rejected:
  "\<not> is_SigningMethodHMAC (Token_Method token) \<Longrightarrow>
   AuthMiddleware L jwtSecret now token = AbortUnauthorized ''Invalid token''"
  by (simp add: AuthMiddleware_def Parse_def)

lemma resigned_token_check:
  assumes gen: "generateJWT L jwtSecret tIat tExp userID phoneNumber = Inr token"
    and rt: "uuid_Parse L (uuid_String L userID) = Some userID"
    and hm: "is_SigningMethodHMAC m"
    and sg: "method_Sign L m jwtSecret (m, Token_Claims token) = Inr sig"
    and bf: "Before now (Unix (Add tExp (Hour * 24)) * Second)"
  shows "AuthMiddleware L jwtSecret now (token\<lparr>Token_Method := m, Token_Signature := sig\<rparr>) =
      Next \<lparr>User_ID = userID, User_PhoneNumber = phoneNumber,
            User_CreatedAt = zeroTime, User_UpdatedAt = zeroTime\<rparr>"
  using generateJWT_token(2) [OF gen] rt hm sg bf
  by (simp add: AuthMiddleware_def Parse_def validate_claims_def)

text \<open>C9, as stated, fails in its last clause: \<open>generateJWT\<close> signs with HS256, yet a
  token that carries the same claims under HS384, with the MAC of that method for the
  same secret, is accepted and yields the user.\<close>

theorem other_hmac_method_accepted_counterexample:
  "generateJWT method_Library ''secret'' Minute Minute 7 ''+15551234567''
     = Inr (token_1\<lparr>Token_Signature := ''hs256-secret''\<rparr>) \<and>
   Token_Method token_hs384 = HS384 \<and>
   method_Sign method_Library HS384 ''secret'' (HS384, Token_Claims token_hs384)
     = Inr (Token_Signature token_hs384) \<and>
   AuthMiddleware method_Library ''secret'' (3 * Minute) token_hs384 =
     Next \<lparr>User_ID = 7, User_PhoneNumber = ''+15551234567'',
           User_CreatedAt = zeroTime, User_UpdatedAt = zeroTime\<rparr>"
  by (simp add: generateJWT_def SignedString_def NewWithClaims_def method_Library_def
      test_Library_def token_1_def token_hs384_def AuthMiddleware_def Parse_def
      validate_claims_def is_SigningMethodHMAC_def Before_def
      Unix_def Add_def Hour_def Minute_def Second_def replicate_numeral)

text \<open>C9 (amended): a token that \<open>generateJWT\<close> produced for a user id and phone number,
  checked by \<open>AuthMiddleware\<close> with the same secret, is accepted as long as the clock is
  before its \<open>exp\<close> claim (24 hours after minting, in whole seconds) and then yields exactly
  that id (from \<open>sub\<close>, for a UUID that the UUID library reads back from its own text
  form) and that phone number (from \<open>phone\<close>); it is rejected from the \<open>exp\<close> instant on,
  in particular once 24 hours have passed since minting; every token whose signing method
  is not one of the HMAC methods HS256, HS384 and HS512 is rejected; and the same claims
  signed with the same secret under any of the three HMAC methods are accepted, not only
  under the HS256 that \<open>generateJWT\<close> uses.\<close>

theorem token_roundtrip:
  "(generateJWT L jwtSecret tIat tExp userID phoneNumber = Inr token \<and>
    uuid_Parse L (uuid_String L userID) = Some userID \<longrightarrow>
      (Before now (Unix (Add tExp (Hour * 24)) * Second) \<longrightarrow>
         AuthMiddleware L jwtSecret now token =
           Next \<lparr>User_ID = userID, User_PhoneNumber = phoneNumber,
                 User_CreatedAt = zeroTime, User_UpdatedAt = zeroTime\<rparr>) \<and>
      (\<not> Before now (Unix (Add tExp (Hour * 24)) * Second) \<longrightarrow>
         AuthMiddleware L jwtSecret now token = AbortUnauthorized ''Invalid token'') \<and>
      (Add tExp (Hour * 24) \<le> now \<longrightarrow>
         AuthMiddleware L jwtSecret now token = AbortUnauthorized ''Invalid token'') \<and>
      (is_SigningMethodHMAC m \<and>
       method_Sign L m jwtSecret (m, Token_Claims token) = Inr sig \<and>
       Before now (Unix (Add tExp (Hour * 24)) * Second) \<longrightarrow>
         AuthMiddleware L jwtSecret now (token\<lparr>Token_Method := m, Token_Signature := sig\<rparr>) =
           Next \<lparr>User_ID = userID, User_PhoneNumber = phoneNumber,
                 User_CreatedAt = zeroTime, User_UpdatedAt = zeroTime\<rparr>)) \<and>
   (\<not> is_SigningMethodHMAC (Token_Method token') \<longrightarrow>
      AuthMiddleware L jwtSecret now token' = AbortUnauthorized ''Invalid token'')"
proof (intro conjI impI)
  assume h: "generateJWT L jwtSecret tIat tExp userID phoneNumber = Inr token \<and>
    uuid_Parse L (uuid_String L userID) = Some userID"
  then have m: "AuthMiddleware L jwtSecret now token =
     (if Before now (Unix (Add tExp (Hour * 24)) * Second)
      then Next \<lparr>User_ID = userID, User_PhoneNumber = phoneNumber,
                 User_CreatedAt = zeroTime, User_UpdatedAt = zeroTime\<rparr>
      else AbortUnauthorized ''Invalid token'')"
    using minted_token_check by blast
  {
    assume "Before now (Unix (Add tExp (Hour * 24)) * Second)"
    with m show "AuthMiddleware L jwtSecret now token =
           Next \<lparr>User_ID = userID, User_PhoneNumber = phoneNumber,
                 User_CreatedAt = zeroTime, User_UpdatedAt = zeroTime\<rparr>" by simp
  }
  {
    assume "\<not> Before now (Unix (Add tExp (Hour * 24)) * Second)"
    with m show "AuthMiddleware L jwtSecret now token = AbortUnauthorized ''Invalid token''" by simp
  }
  {
    assume "Add tExp (Hour * 24) \<le> now"
    with Unix_floor [of "Add tExp (Hour * 24)"]
    have "\<not> Before now (Unix (Add tExp (Hour * 24)) * Second)" by (simp add: Before_def)
    with m show "AuthMiddleware L jwtSecret now token = AbortUnauthorized ''Invalid token''" by simp
  }
  {
    assume r: "is_SigningMethodHMAC m \<and>
       method_Sign L m jwtSecret (m, Token_Claims token) = Inr sig \<and>
       Before now (Unix (Add tExp (Hour * 24)) * Second)"
    from h r resigned_token_check [of L jwtSecret tIat tExp userID phoneNumber token m sig now]
    show "AuthMiddleware L jwtSecret now (token\<lparr>Token_Method := m, Token_Signature := sig\<rparr>) =
           Next \<lparr>User_ID = userID, User_PhoneNumber = phoneNumber,
                 User_CreatedAt = zeroTime, User_UpdatedAt = zeroTime\<rparr>" by blast
  }
next
  assume "\<not> is_SigningMethodHMAC (Token_Method token')"
  then show "AuthMiddleware L jwtSecret now token' = AbortUnauthorized ''Invalid token''"
    by (rule non_HMAC_rejected)
qed

lemma generateJWT_1:
  "generateJWT test_Library ''secret'' Minute Minute 7 ''+15551234567'' = Inr token_1"
  by (simp add: generateJWT_def SignedString_def NewWithClaims_def test_Library_def token_1_def
      Unix_def Add_def Hour_def Minute_def Second_def replicate_numeral)

theorem token_roundtrip_witness:
  "generateJWT test_Library ''secret'' Minute Minute 7 ''+15551234567'' = Inr token_1 \<and>
   AuthMiddleware test_Library ''secret'' (3 * Minute) token_1 =
     Next \<lparr>User_ID = 7, User_PhoneNumber = ''+15551234567'',
           User_CreatedAt = zeroTime, User_UpdatedAt = zeroTime\<rparr> \<and>
   AuthMiddleware test_Library ''secret'' (Minute + Hour * 24) token_1 =
     AbortUnauthorized ''Invalid token'' \<and>
   AuthMiddleware test_Library ''secret'' (3 * Minute) (token_1\<lparr>Token_Method := SigningMethodNone\<rparr>) =
     AbortUnauthorized ''Invalid token'' \<and>
   AuthMiddleware test_Library ''secret'' (3 * Minute)
       (token_1\<lparr>Token_Method := HS512, Token_Signature := ''mac-secret''\<rparr>) =
     Next \<lparr>User_ID = 7, User_PhoneNumber = ''+15551234567'',
           User_CreatedAt = zeroTime, User_UpdatedAt = zeroTime\<rparr>"
proof -
  have h: "generateJWT test_Library ''secret'' Minute Minute 7 ''+15551234567'' = Inr token_1 \<and>
    uuid_Parse test_Library (uuid_String test_Library 7) = Some 7"
    using generateJWT_1 by (simp add: test_Library_def replicate_numeral)
  have b: "Before (3 * Minute) (Unix (Add Minute (Hour * 24)) * Second)"
    by (simp add: Before_def Unix_def Add_def Hour_def Minute_def Second_def)
  have e: "Add Minute (Hour * 24) \<le> Minute + Hour * 24"
    by (simp add: Add_def)
  have n: "\<not> is_SigningMethodHMAC (Token_Method (token_1\<lparr>Token_Method := SigningMethodNone\<rparr>))"
    by (simp add: is_SigningMethodHMAC_def)
  have r: "is_SigningMethodHMAC HS512 \<and>
    method_Sign test_Library HS512 ''secret'' (HS512, Token_Claims token_1) = Inr ''mac-secret''"
    by (simp add: is_SigningMethodHMAC_def test_Library_def)
  from token_roundtrip [of test_Library "''secret''" Minute Minute 7 "''+15551234567''"
      token_1 "3 * Minute" HS512 "''mac-secret''" "token_1\<lparr>Token_Method := SigningMethodNone\<rparr>"]
    token_roundtrip [of test_Library "''secret''" Minute Minute 7 "''+15551234567''"
      token_1 "Minute + Hour * 24" HS512 "''mac-secret''" "token_1\<lparr>Token_Method := SigningMethodNone\<rparr>"]
    h b e n r
  show ?thesis by blast
qed

end
